theory Spec2Isabelle
  imports Main
begin

section \<open>The environment of the script\<close>

text \<open>
  The script \<^verbatim>\<open>src/index.js\<close> talks to the file system, to the console and to one child
  process per converted item. The model makes these explicit: a world of type \<open>'w\<close> that the
  file system queries read and that the child processes may change, and a trace of the
  console lines and engine launches, in the order the script produces them.
\<close>

datatype file_kind = RegularFile | Directory | OtherKind

text \<open>
  The value a rejected promise or a thrown exception carries:
  \<^item> \<open>FfmpegError\<close> is \<^verbatim>\<open>new Error(`FFmpeg error`)\<close> of the \<^verbatim>\<open>close\<close> handler;
  \<^item> \<open>SpawnError err\<close> is the \<^verbatim>\<open>err\<close> that the \<^verbatim>\<open>error\<close> handler passes on;
  \<^item> \<open>ReaddirError err\<close> is what \<^verbatim>\<open>fs.readdirSync\<close> throws.
\<close>

datatype error = FfmpegError | SpawnError string | ReaddirError string

text \<open>
  The event of the child process that settles the promise of \<^verbatim>\<open>runFfmpeg\<close>: its
  \<^verbatim>\<open>close\<close> event with the exit code (\<^verbatim>\<open>null\<close>, here \<open>None\<close>, when a signal ended
  the child), or its \<^verbatim>\<open>error\<close> event. A promise settles once, so an event that comes
  after the first one cannot change the result. The source imposes no timeout: the child
  is taken to end.
\<close>

datatype child_outcome = Close "int option" | ErrorEvent string

text \<open>
  One constructor for each console line of the source, with the values the line
  interpolates. The colours of \<^verbatim>\<open>chalk\<close> are left out. \<open>Processing\<close>, \<open>Created\<close>,
  \<open>ExitedWithCode\<close> and \<open>FailedToStart\<close> carry the path whose \<^verbatim>\<open>path.basename\<close> the
  line prints. \<open>FailedToStartMarked\<close> is the line of the second variant of the script,
  which puts two blanks and a cross mark in front of the same text.
\<close>

datatype message =
    FfmpegNotFound
  | MayTakeAMoment
  | Downloaded
  | DownloadFailed string
  | CheckNetwork
  | ManualMode string
  | AutomaticMode string
  | NoFlacFiles
  | Processing string
  | Skipping string
  | Created string
  | ExitedWithCode "int option" string
  | FailedToStart string string
  | FailedToStartMarked string string
  | Done

text \<open>
  \<open>Log\<close> is \<^verbatim>\<open>console.log\<close>, \<open>LogError\<close> is \<^verbatim>\<open>console.error\<close>, and
  \<open>Spawn p args\<close> is the call \<^verbatim>\<open>spawn(p, args)\<close>.
\<close>

datatype event = Log message | LogError message | Spawn string "string list"

text \<open>
  What the script takes from Node and from the packages it requires:
  \<^item> \<open>ffmpegPath\<close>: the path that \<^verbatim>\<open>ffmpeg-static\<close> exports (taken to be a string);
  \<^item> \<open>lookupPath w p\<close>: what the file system holds at path \<open>p\<close>, if anything;
  \<^item> \<open>readdirSync w d\<close>: the entry names of directory \<open>d\<close> in listing order, or the
    message of the exception;
  \<^item> \<open>pathJoin\<close>: \<^verbatim>\<open>path.join\<close> of two segments;
  \<^item> \<open>spawnChild w p args\<close>: the settling event of the child and the world it leaves;
  \<^item> \<open>runInstallScript w\<close>: the body of the \<^verbatim>\<open>try\<close> block of
    \<^verbatim>\<open>ensureFfmpegIsAvailable\<close>, \<open>Some err\<close> when it throws;
  \<^item> \<open>processCwd\<close>: \<^verbatim>\<open>process.cwd()\<close>.
\<close>

record 'w env =
  ffmpegPath :: string
  lookupPath :: "'w \<Rightarrow> string \<Rightarrow> file_kind option"
  readdirSync :: "'w \<Rightarrow> string \<Rightarrow> string + string list"
  pathJoin :: "string \<Rightarrow> string \<Rightarrow> string"
  spawnChild :: "'w \<Rightarrow> string \<Rightarrow> string list \<Rightarrow> child_outcome \<times> 'w"
  runInstallScript :: "'w \<Rightarrow> string option \<times> 'w"
  processCwd :: string

text \<open>\<^verbatim>\<open>fs.existsSync\<close> is true of anything that is there, of whatever kind.\<close>

definition existsSync :: "'w env \<Rightarrow> 'w \<Rightarrow> string \<Rightarrow> bool" where
  "existsSync env w p = (case lookupPath env w p of None \<Rightarrow> False | Some k \<Rightarrow> True)"

definition isRegularFile :: "'w env \<Rightarrow> 'w \<Rightarrow> string \<Rightarrow> bool" where
  "isRegularFile env w p = (lookupPath env w p = Some RegularFile)"

section \<open>Strings and entry names\<close>

text \<open>
  \<^verbatim>\<open>String.prototype.toLowerCase\<close>, on the letters that matter for a comparison with
  \<^verbatim>\<open>'.flac'\<close>: no character outside \<open>A\<close> to \<open>Z\<close> has \<open>f\<close>, \<open>l\<close>, \<open>a\<close>, \<open>c\<close> or the
  dot as its lower case.
\<close>

definition lowerChar :: "char \<Rightarrow> char" where
  "lowerChar c =
     (let n = (of_char c :: nat) in if 65 \<le> n \<and> n \<le> 90 then char_of (n + 32) else c)"

definition toLowerCase :: "string \<Rightarrow> string" where
  "toLowerCase s = map lowerChar s"

text \<open>
  \<^verbatim>\<open>path.extname\<close> on an entry name of a directory listing, which holds no path
  separator: the part from the last dot on; empty when the name has no dot, when its only
  dot is its first character, and for the name \<^verbatim>\<open>..\<close>.
\<close>

definition path_extname :: "string \<Rightarrow> string" where
  "path_extname p =
     (let afterDot = takeWhile (\<lambda>c. c \<noteq> CHR ''.'') (rev p) in
      if length afterDot = length p then []
      else let startDot = length p - length afterDot - 1 in
        if startDot = 0 \<or> p = ''..'' then [] else drop startDot p)"

text \<open>
  \<^verbatim>\<open>path.basename(p, suffix)\<close> on an entry name: the name without the suffix when it
  ends with it, the empty string when the name is the suffix, the name otherwise.
\<close>

definition path_basename :: "string \<Rightarrow> string \<Rightarrow> string" where
  "path_basename p suffix =
     (if suffix \<noteq> [] \<and> length suffix \<le> length p then
        (if suffix = p then []
         else if drop (length p - length suffix) p = suffix
           then take (length p - length suffix) p
           else p)
      else p)"

section \<open>The script\<close>

subsection \<open>\<^verbatim>\<open>ensureFfmpegIsAvailable\<close>\<close>

definition ensureFfmpegIsAvailable :: "'w env \<Rightarrow> 'w \<Rightarrow> bool \<times> event list \<times> 'w" where
  "ensureFfmpegIsAvailable env w =
     (if existsSync env w (ffmpegPath env) then (True, [], w)
      else
        (case runInstallScript env w of
           (None, w') \<Rightarrow>
             (True, [Log FfmpegNotFound, Log MayTakeAMoment, Log Downloaded], w')
         | (Some err, w') \<Rightarrow>
             (False,
              [Log FfmpegNotFound, Log MayTakeAMoment,
               LogError (DownloadFailed err), LogError CheckNetwork], w')))"

subsection \<open>\<^verbatim>\<open>runFfmpeg\<close>\<close>

text \<open>The array \<^verbatim>\<open>args\<close> of \<^verbatim>\<open>runFfmpeg\<close>.\<close>

definition ffmpegArgs :: "string \<Rightarrow> string \<Rightarrow> string \<Rightarrow> string \<Rightarrow> string \<Rightarrow> string list" where
  "ffmpegArgs flacFile jpgFile lycFile outputFile lang =
     [''-i'', flacFile,
      ''-i'', jpgFile,
      ''-i'', lycFile,
      ''-c:a'', ''alac'',
      ''-c:v'', ''copy'',
      ''-c:s'', ''mov_text'',
      ''-map'', ''0:a'',
      ''-map'', ''1:v'',
      ''-map'', ''2:s'',
      ''-metadata:s:s:0'', ''language='' @ lang,
      ''-disposition:v'', ''attached_pic'',
      ''-y'',
      outputFile]"

text \<open>
  The promise of \<^verbatim>\<open>runFfmpeg\<close>: \<open>Inr ()\<close> when it is resolved, \<open>Inl e\<close> when it is
  rejected with \<open>e\<close>.
\<close>

definition runFfmpeg ::
  "'w env \<Rightarrow> string \<Rightarrow> string \<Rightarrow> string \<Rightarrow> string \<Rightarrow> string \<Rightarrow> 'w
     \<Rightarrow> (error + unit) \<times> event list \<times> 'w" where
  "runFfmpeg env flacFile jpgFile lycFile outputFile lang w =
     (let args = ffmpegArgs flacFile jpgFile lycFile outputFile lang in
      case spawnChild env w (ffmpegPath env) args of
        (Close code, w') \<Rightarrow>
          if code = Some 0
          then (Inr (), [Spawn (ffmpegPath env) args, Log (Created outputFile)], w')
          else (Inl FfmpegError,
                [Spawn (ffmpegPath env) args, LogError (ExitedWithCode code flacFile)], w')
      | (ErrorEvent err, w') \<Rightarrow>
          (Inl (SpawnError err),
           [Spawn (ffmpegPath env) args, LogError (FailedToStart flacFile err)], w'))"

subsection \<open>\<^verbatim>\<open>processSingleFile\<close>\<close>

definition processSingleFile ::
  "'w env \<Rightarrow> string \<Rightarrow> string \<Rightarrow> string \<Rightarrow> 'w \<Rightarrow> (error + unit) \<times> event list \<times> 'w" where
  "processSingleFile env baseName lang dir w =
     (let flacFile = pathJoin env dir (baseName @ ''.flac'');
          jpgFile = pathJoin env dir (baseName @ ''.jpg'');
          lycFile = pathJoin env dir (baseName @ ''.lrc'');
          outputFile = pathJoin env dir (baseName @ ''.m4a'')
      in
        if existsSync env w flacFile \<and> existsSync env w jpgFile \<and> existsSync env w lycFile
        then
          (case runFfmpeg env flacFile jpgFile lycFile outputFile lang w of
             (r, tr, w') \<Rightarrow> (r, Log (Processing flacFile) # tr, w'))
        else (Inr (), [Log (Skipping baseName)], w))"

subsection \<open>\<^verbatim>\<open>processDirectory\<close>\<close>

text \<open>The filter of \<^verbatim>\<open>processDirectory\<close> and the base name its loop computes.\<close>

definition flacFilter :: "string list \<Rightarrow> string list" where
  "flacFilter allFiles =
     filter (\<lambda>file. toLowerCase (path_extname file) = ''.flac'') allFiles"

definition baseNameOf :: "string \<Rightarrow> string" where
  "baseNameOf flacFile = path_basename flacFile (path_extname flacFile)"

text \<open>The candidate base names of a listing, in the order the loop visits them.\<close>

definition discover :: "string list \<Rightarrow> string list" where
  "discover allFiles = map baseNameOf (flacFilter allFiles)"

text \<open>
  The \<^verbatim>\<open>for ... of\<close> loop. An \<^verbatim>\<open>await\<close> on a rejected promise throws, and nothing
  in the loop catches: the loop ends there, rejected with the same error.
\<close>

fun forLoop ::
  "'w env \<Rightarrow> string \<Rightarrow> string \<Rightarrow> string list \<Rightarrow> 'w \<Rightarrow> (error + unit) \<times> event list \<times> 'w" where
  "forLoop env lang dir [] w = (Inr (), [], w)"
| "forLoop env lang dir (flacFile # rest) w =
     (case processSingleFile env (baseNameOf flacFile) lang dir w of
        (Inl e, tr, w') \<Rightarrow> (Inl e, tr, w')
      | (Inr u, tr, w') \<Rightarrow>
          (case forLoop env lang dir rest w' of
             (r, tr', w'') \<Rightarrow> (r, tr @ tr', w'')))"

definition processDirectory ::
  "'w env \<Rightarrow> string \<Rightarrow> string \<Rightarrow> 'w \<Rightarrow> (error + unit) \<times> event list \<times> 'w" where
  "processDirectory env lang dir w =
     (case readdirSync env w dir of
        Inl err \<Rightarrow> (Inl (ReaddirError err), [], w)
      | Inr allFiles \<Rightarrow>
          (let flacFiles = flacFilter allFiles in
           if length flacFiles = 0 then (Inr (), [Log NoFlacFiles], w)
           else forLoop env lang dir flacFiles w))"

subsection \<open>\<^verbatim>\<open>main\<close>\<close>

text \<open>
  The two values \<^verbatim>\<open>main\<close> reads from \<^verbatim>\<open>argv\<close>. The positional argument is
  \<^verbatim>\<open>undefined\<close> (here \<open>None\<close>) when it is not given; \<^verbatim>\<open>lang\<close> has a default.
\<close>

record argv =
  argv_basename :: "string option"
  argv_lang :: string

text \<open>The truth value JavaScript gives a string or \<^verbatim>\<open>undefined\<close> in a condition.\<close>

fun truthy :: "string option \<Rightarrow> bool" where
  "truthy None = False"
| "truthy (Some s) = (s \<noteq> [])"

text \<open>
  How a run ends: \<open>ProcessExit n\<close> is the call \<^verbatim>\<open>process.exit(n)\<close>; \<open>Fulfilled\<close> is
  \<^verbatim>\<open>main\<close> running to its end; \<open>Rejected e\<close> is the promise of \<^verbatim>\<open>main\<close> rejected with
  \<open>e\<close>, which nothing handles (the script calls \<^verbatim>\<open>main()\<close> bare).
\<close>

datatype run_end = ProcessExit int | Fulfilled | Rejected error

definition main :: "'w env \<Rightarrow> argv \<Rightarrow> 'w \<Rightarrow> run_end \<times> event list \<times> 'w" where
  "main env av w =
     (case ensureFfmpegIsAvailable env w of
        (isFfmpegReady, tr0, w0) \<Rightarrow>
          if \<not> isFfmpegReady then (ProcessExit 1, tr0, w0)
          else
            (let lang = argv_lang av; currentDir = processCwd env in
             case
               (if truthy (argv_basename av)
                then
                  (case processSingleFile env (the (argv_basename av)) lang currentDir w0 of
                     (r, tr, w') \<Rightarrow>
                       (r, Log (ManualMode (the (argv_basename av))) # tr, w'))
                else
                  (case processDirectory env lang currentDir w0 of
                     (r, tr, w') \<Rightarrow> (r, Log (AutomaticMode currentDir) # tr, w')))
             of
               (Inl e, tr, w') \<Rightarrow> (Rejected e, tr0 @ tr, w')
             | (Inr u, tr, w') \<Rightarrow> (Fulfilled, tr0 @ tr @ [Log Done], w')))"

text \<open>
  The exit status of the process. Node ends a process whose event loop is empty with
  status 0. The first argument is the status the Node runtime gives a process that ends
  on an unhandled rejection: 1 in the default mode of Node 15 and later.
\<close>

fun exitStatus :: "int \<Rightarrow> run_end \<Rightarrow> int" where
  "exitStatus unhandled (ProcessExit n) = n"
| "exitStatus unhandled Fulfilled = 0"
| "exitStatus unhandled (Rejected e) = unhandled"

subsection \<open>Reading a trace\<close>

text \<open>
  Every call of \<^verbatim>\<open>processSingleFile\<close> prints one of the lines \<open>Processing\<close> and
  \<open>Skipping\<close> first, so these lines count the items a run has taken up; the \<open>Spawn\<close>
  events are the engine launches.
\<close>

fun isItemStart :: "event \<Rightarrow> bool" where
  "isItemStart (Log (Processing p)) = True"
| "isItemStart (Log (Skipping b)) = True"
| "isItemStart e = False"

definition itemsProcessed :: "event list \<Rightarrow> event list" where
  "itemsProcessed tr = filter isItemStart tr"

fun spawnArgs :: "event \<Rightarrow> string list option" where
  "spawnArgs (Spawn p args) = Some args"
| "spawnArgs e = None"

definition spawns :: "event list \<Rightarrow> string list list" where
  "spawns tr = List.map_filter spawnArgs tr"

text \<open>The two lines that report a failed engine run.\<close>

fun isFailureReport :: "event \<Rightarrow> bool" where
  "isFailureReport (LogError (ExitedWithCode code p)) = True"
| "isFailureReport (LogError (FailedToStart p err)) = True"
| "isFailureReport e = False"

text \<open>The events that \<^verbatim>\<open>processSingleFile\<close> and \<^verbatim>\<open>runFfmpeg\<close> can produce.\<close>

fun isItemEvent :: "event \<Rightarrow> bool" where
  "isItemEvent (Log (Processing p)) = True"
| "isItemEvent (Log (Skipping b)) = True"
| "isItemEvent (Log (Created p)) = True"
| "isItemEvent (LogError (ExitedWithCode code p)) = True"
| "isItemEvent (LogError (FailedToStart p err)) = True"
| "isItemEvent (Spawn p args) = True"
| "isItemEvent e = False"

section \<open>The second variant of the script\<close>




section \<open>Concrete environments\<close>

text \<open>
  A file system given by a table of paths, a directory listing, and an engine that ends
  every run the same way. The world does not change, so its type is \<open>unit\<close>.
\<close>

definition tableEnv :: "(string \<times> file_kind) list \<Rightarrow> string list \<Rightarrow> child_outcome \<Rightarrow> unit env" where
  "tableEnv files listing outcome =
     \<lparr>ffmpegPath = ''/bin/ffmpeg'',
      lookupPath = (\<lambda>w. map_of files),
      readdirSync = (\<lambda>w d. Inr listing),
      pathJoin = (\<lambda>d f. d @ ''/'' @ f),
      spawnChild = (\<lambda>w p args. (outcome, w)),
      runInstallScript = (\<lambda>w. (None, w)),
      processCwd = ''/music''\<rparr>"

text \<open>
  The directory of the end-to-end scenario of the specification: a complete item \<open>a\<close>
  and a stray audio file \<open>b\<close>.
\<close>

definition albumFiles :: "(string \<times> file_kind) list" where
  "albumFiles =
     [(''/bin/ffmpeg'', RegularFile),
      (''/music/a.flac'', RegularFile),
      (''/music/a.jpg'', RegularFile),
      (''/music/a.lrc'', RegularFile),
      (''/music/b.flac'', RegularFile)]"

definition albumListing :: "string list" where
  "albumListing = [''a.flac'', ''a.jpg'', ''a.lrc'', ''b.flac'']"

text \<open>The argument list for item \<open>a\<close> of this directory with the language tag \<^verbatim>\<open>eng\<close>.\<close>

definition albumArgs :: "string list" where
  "albumArgs =
     ffmpegArgs ''/music/a.flac'' ''/music/a.jpg'' ''/music/a.lrc'' ''/music/a.m4a'' ''eng''"

text \<open>The same directory with the engine ending every run with status 0, 1 and 2.\<close>

definition albumEnv :: "unit env" where
  "albumEnv = tableEnv albumFiles albumListing (Close (Some 0))"

definition failingEnv :: "unit env" where
  "failingEnv = tableEnv albumFiles albumListing (Close (Some 1))"

definition failingEnv2 :: "unit env" where
  "failingEnv2 = tableEnv albumFiles albumListing (Close (Some 2))"

text \<open>A directory in which the cover of \<open>a\<close> is a directory named \<^verbatim>\<open>a.jpg\<close>.\<close>

definition coverDirEnv :: "unit env" where
  "coverDirEnv =
     tableEnv
       [(''/bin/ffmpeg'', RegularFile),
        (''/music/a.flac'', RegularFile),
        (''/music/a.jpg'', Directory),
        (''/music/a.lrc'', RegularFile)]
       [''a.flac'', ''a.jpg'', ''a.lrc'']
       (Close (Some 0))"


text \<open>A directory without audio files.\<close>

definition noAudioEnv :: "unit env" where
  "noAudioEnv =
     tableEnv [(''/bin/ffmpeg'', RegularFile), (''/music/notes.txt'', RegularFile)]
       [''notes.txt''] (Close (Some 0))"

text \<open>A machine without the engine binary, on which the install script fails.\<close>

definition offlineEnv :: "unit env" where
  "offlineEnv =
     (tableEnv [(''/music/a.flac'', RegularFile)] [''a.flac''] (Close (Some 0)))
       \<lparr>runInstallScript := (\<lambda>w. (Some ''ENOTFOUND'', w))\<rparr>"

definition autoArgv :: argv where
  "autoArgv = \<lparr>argv_basename = None, argv_lang = ''eng''\<rparr>"

definition manualArgv :: argv where
  "manualArgv = \<lparr>argv_basename = Some ''a'', argv_lang = ''eng''\<rparr>"

definition emptyArgv :: argv where
  "emptyArgv = \<lparr>argv_basename = Some [], argv_lang = ''eng''\<rparr>"

section \<open>Lemmas\<close>

subsection \<open>Lower case and extensions\<close>


lemma lowerChar_dot_self: "lowerChar CHR ''.'' = CHR ''.''"
  by (simp add: lowerChar_def)

lemma lowerChar_eq_dot:
  assumes "lowerChar c = CHR ''.''"
  shows "c = CHR ''.''"
proof (cases "65 \<le> (of_char c :: nat) \<and> (of_char c :: nat) \<le> 90")
  case True
  with assms have "char_of (of_char c + 32 :: nat) = CHR ''.''"
    by (simp add: lowerChar_def)
  then have "(of_char (char_of (of_char c + 32 :: nat) :: char) :: nat) = of_char CHR ''.''"
    by simp
  then have "(of_char c + 32 :: nat) mod 256 = 46"
    by (simp only: of_char_of) simp
  moreover from True have "(of_char c + 32 :: nat) mod 256 = of_char c + 32"
    by (intro mod_less) linarith
  ultimately have "(of_char c :: nat) + 32 = 46" by simp
  with True show ?thesis by linarith
next
  case False
  with assms show ?thesis by (simp add: lowerChar_def)
qed

lemma length_toLowerCase: "length (toLowerCase s) = length s"
  by (simp add: toLowerCase_def)


lemma lower_flac:
  assumes "toLowerCase s = ''.flac''"
  shows "\<exists>c1 c2 c3 c4. s = [CHR ''.'', c1, c2, c3, c4] \<and> c1 \<noteq> CHR ''.'' \<and>
           c2 \<noteq> CHR ''.'' \<and> c3 \<noteq> CHR ''.'' \<and> c4 \<noteq> CHR ''.''"
proof -
  have "length (toLowerCase s) = 5" by (simp add: assms)
  then have "length s = 5" by (simp add: length_toLowerCase)
  then obtain c0 c1 c2 c3 c4 where s: "s = [c0, c1, c2, c3, c4]"
    by (auto simp: length_Suc_conv numeral_eq_Suc)
  from assms s have l: "lowerChar c0 = CHR ''.''" "lowerChar c1 = CHR ''f''"
    "lowerChar c2 = CHR ''l''" "lowerChar c3 = CHR ''a''" "lowerChar c4 = CHR ''c''"
    by (simp_all add: toLowerCase_def)
  have "c0 = CHR ''.''" using l(1) by (rule lowerChar_eq_dot)
  moreover have "c1 \<noteq> CHR ''.''" using l(2) lowerChar_dot_self by auto
  moreover have "c2 \<noteq> CHR ''.''" using l(3) lowerChar_dot_self by auto
  moreover have "c3 \<noteq> CHR ''.''" using l(4) lowerChar_dot_self by auto
  moreover have "c4 \<noteq> CHR ''.''" using l(5) lowerChar_dot_self by auto
  ultimately show ?thesis using s by simp
qed

lemma extname_suffix5:
  assumes "6 \<le> length f" and "toLowerCase (drop (length f - 5) f) = ''.flac''"
  shows "path_extname f = drop (length f - 5) f"
proof -
  from lower_flac [OF assms(2)] obtain c1 c2 c3 c4 where
    d: "drop (length f - 5) f = [CHR ''.'', c1, c2, c3, c4]" and
    n: "c1 \<noteq> CHR ''.''" "c2 \<noteq> CHR ''.''" "c3 \<noteq> CHR ''.''" "c4 \<noteq> CHR ''.''"
    by blast
  obtain pre where f: "f = pre @ [CHR ''.'', c1, c2, c3, c4]"
    using d by (metis append_take_drop_id)
  have "rev f = c4 # c3 # c2 # c1 # CHR ''.'' # rev pre"
    by (simp add: f)
  then have tw: "takeWhile (\<lambda>c. c \<noteq> CHR ''.'') (rev f) = [c4, c3, c2, c1]"
    using n by simp
  have ne: "f \<noteq> ''..''" using assms(1) by auto
  have sd: "length f - length [c4, c3, c2, c1] - 1 = length f - 5" by simp
  show ?thesis
    unfolding path_extname_def Let_def tw sd using assms(1) ne by simp
qed

lemma extname_flac_length:
  assumes "toLowerCase (path_extname f) = ''.flac''"
  shows "6 \<le> length f \<and> path_extname f = drop (length f - 5) f"
proof -
  let ?a = "takeWhile (\<lambda>c. c \<noteq> CHR ''.'') (rev f)"
  let ?sd = "length f - length ?a - 1"
  have len: "length (path_extname f) = 5"
  proof -
    have "length (toLowerCase (path_extname f)) = 5" by (simp add: assms)
    then show ?thesis by (simp add: length_toLowerCase)
  qed
  then have ne: "path_extname f \<noteq> []" by auto
  have c: "length ?a \<noteq> length f \<and> ?sd \<noteq> 0 \<and> path_extname f = drop ?sd f"
    using ne unfolding path_extname_def Let_def by (auto split: if_splits)
  with len have l5: "length f - ?sd = 5" by simp
  then have "?sd = length f - 5" by linarith
  moreover from l5 c have "6 \<le> length f" by linarith
  ultimately show ?thesis using c by simp
qed

lemma flac_ext_iff:
  "toLowerCase (path_extname f) = ''.flac'' \<longleftrightarrow>
     6 \<le> length f \<and> toLowerCase (drop (length f - 5) f) = ''.flac''"
  using extname_flac_length [of f] extname_suffix5 [of f] by auto

lemma baseNameOf_flac:
  assumes "toLowerCase (path_extname f) = ''.flac''"
  shows "baseNameOf f = take (length f - 5) f"
proof -
  from extname_flac_length [OF assms]
  have l: "6 \<le> length f" and e: "path_extname f = drop (length f - 5) f" by simp_all
  have l5: "length (drop (length f - 5) f) = 5" using l by simp
  have "drop (length f - 5) f \<noteq> []" using l5 by auto
  moreover have "drop (length f - 5) f \<noteq> f"
  proof
    assume "drop (length f - 5) f = f"
    then have "length (drop (length f - 5) f) = length f" by simp
    with l5 l show False by linarith
  qed
  ultimately have "drop (length f - 5) f \<noteq> []" "drop (length f - 5) f \<noteq> f" .
  then show ?thesis
    unfolding baseNameOf_def path_basename_def e using l by simp
qed

lemma discover_char:
  "discover allFiles =
     map (\<lambda>f. take (length f - 5) f)
       (filter (\<lambda>f. 6 \<le> length f \<and> toLowerCase (drop (length f - 5) f) = ''.flac'') allFiles)"
  unfolding discover_def flacFilter_def flac_ext_iff [symmetric]
  by (rule map_cong) (auto simp: baseNameOf_flac)

text \<open>
  Which characters \<open>lowerChar\<close> sends to a letter of the audio extension, and so which
  spellings \<open>toLowerCase\<close> sends to \<^verbatim>\<open>.flac\<close>.
\<close>

lemma lowerChar_letter:
  assumes lo: "(of_char l :: nat) = of_char u + 32"
    and up: "65 \<le> (of_char u :: nat)" "(of_char u :: nat) \<le> 90"
  shows "lowerChar c = l \<longleftrightarrow> c = l \<or> c = u"
proof
  assume a: "lowerChar c = l"
  show "c = l \<or> c = u"
  proof (cases "65 \<le> (of_char c :: nat) \<and> (of_char c :: nat) \<le> 90")
    case True
    with a have "char_of (of_char c + 32 :: nat) = l" by (simp add: lowerChar_def)
    then have "(of_char (char_of (of_char c + 32 :: nat) :: char) :: nat) = of_char l" by simp
    then have "(of_char c + 32 :: nat) mod 256 = of_char u + 32"
      by (simp only: of_char_of lo)
    moreover from True have "(of_char c + 32 :: nat) mod 256 = of_char c + 32"
      by (intro mod_less) linarith
    ultimately have "(of_char c :: nat) = of_char u" by simp
    then have "c = u" by simp
    then show ?thesis by simp
  next
    case False
    with a show ?thesis by (simp add: lowerChar_def)
  qed
next
  assume "c = l \<or> c = u"
  then show "lowerChar c = l"
  proof
    assume "c = l"
    then show ?thesis using lo up by (simp add: lowerChar_def)
  next
    assume c: "c = u"
    have "(of_char (char_of (of_char u + 32 :: nat) :: char) :: nat) = (of_char u + 32) mod 256"
      by (simp only: of_char_of)
    also have "\<dots> = of_char u + 32" using up by (intro mod_less) linarith
    also have "\<dots> = of_char l" using lo by simp
    finally have "char_of (of_char u + 32 :: nat) = l" by (rule of_char_eqI)
    then show ?thesis using c up by (simp add: lowerChar_def)
  qed
qed

lemma lowerChar_f: "lowerChar c = CHR ''f'' \<longleftrightarrow> c = CHR ''f'' \<or> c = CHR ''F''"
  by (rule lowerChar_letter) simp_all
lemma lowerChar_l: "lowerChar c = CHR ''l'' \<longleftrightarrow> c = CHR ''l'' \<or> c = CHR ''L''"
  by (rule lowerChar_letter) simp_all
lemma lowerChar_a: "lowerChar c = CHR ''a'' \<longleftrightarrow> c = CHR ''a'' \<or> c = CHR ''A''"
  by (rule lowerChar_letter) simp_all
lemma lowerChar_c: "lowerChar c = CHR ''c'' \<longleftrightarrow> c = CHR ''c'' \<or> c = CHR ''C''"
  by (rule lowerChar_letter) simp_all

lemma lowerChar_dot_iff: "lowerChar c = CHR ''.'' \<longleftrightarrow> c = CHR ''.''"
  using lowerChar_eq_dot lowerChar_dot_self by auto

lemma toLowerCase_flac_iff:
  "toLowerCase s = ''.flac'' \<longleftrightarrow>
     (\<exists>c1 \<in> {CHR ''f'', CHR ''F''}. \<exists>c2 \<in> {CHR ''l'', CHR ''L''}.
      \<exists>c3 \<in> {CHR ''a'', CHR ''A''}. \<exists>c4 \<in> {CHR ''c'', CHR ''C''}.
        s = [CHR ''.'', c1, c2, c3, c4])"
proof
  assume a: "toLowerCase s = ''.flac''"
  have "length (toLowerCase s) = 5" by (simp add: a)
  then have "length s = 5" by (simp add: length_toLowerCase)
  then obtain c0 c1 c2 c3 c4 where s: "s = [c0, c1, c2, c3, c4]"
    by (auto simp: length_Suc_conv numeral_eq_Suc)
  from a s have "lowerChar c0 = CHR ''.''" "lowerChar c1 = CHR ''f''"
    "lowerChar c2 = CHR ''l''" "lowerChar c3 = CHR ''a''" "lowerChar c4 = CHR ''c''"
    by (simp_all add: toLowerCase_def)
  then have "c0 = CHR ''.''" "c1 = CHR ''f'' \<or> c1 = CHR ''F''" "c2 = CHR ''l'' \<or> c2 = CHR ''L''"
    "c3 = CHR ''a'' \<or> c3 = CHR ''A''" "c4 = CHR ''c'' \<or> c4 = CHR ''C''"
    by (simp_all only: lowerChar_dot_iff lowerChar_f lowerChar_l lowerChar_a lowerChar_c)
  then show "\<exists>c1 \<in> {CHR ''f'', CHR ''F''}. \<exists>c2 \<in> {CHR ''l'', CHR ''L''}.
      \<exists>c3 \<in> {CHR ''a'', CHR ''A''}. \<exists>c4 \<in> {CHR ''c'', CHR ''C''}.
        s = [CHR ''.'', c1, c2, c3, c4]"
    unfolding s by blast
next
  assume "\<exists>c1 \<in> {CHR ''f'', CHR ''F''}. \<exists>c2 \<in> {CHR ''l'', CHR ''L''}.
      \<exists>c3 \<in> {CHR ''a'', CHR ''A''}. \<exists>c4 \<in> {CHR ''c'', CHR ''C''}.
        s = [CHR ''.'', c1, c2, c3, c4]"
  then obtain c1 c2 c3 c4 where s: "s = [CHR ''.'', c1, c2, c3, c4]"
    and c: "c1 = CHR ''f'' \<or> c1 = CHR ''F''" "c2 = CHR ''l'' \<or> c2 = CHR ''L''"
      "c3 = CHR ''a'' \<or> c3 = CHR ''A''" "c4 = CHR ''c'' \<or> c4 = CHR ''C''"
    by blast
  from c have "lowerChar c1 = CHR ''f''" "lowerChar c2 = CHR ''l''"
    "lowerChar c3 = CHR ''a''" "lowerChar c4 = CHR ''c''"
    by (simp_all only: lowerChar_f lowerChar_l lowerChar_a lowerChar_c)
  then show "toLowerCase s = ''.flac''"
    by (simp add: s toLowerCase_def lowerChar_dot_self)
qed

lemma discover_spellings:
  "discover allFiles =
     map (\<lambda>f. take (length f - 5) f)
       (filter
          (\<lambda>f. 6 \<le> length f \<and>
             (\<exists>c1 \<in> {CHR ''f'', CHR ''F''}. \<exists>c2 \<in> {CHR ''l'', CHR ''L''}.
              \<exists>c3 \<in> {CHR ''a'', CHR ''A''}. \<exists>c4 \<in> {CHR ''c'', CHR ''C''}.
                drop (length f - 5) f = [CHR ''.'', c1, c2, c3, c4]))
          allFiles)"
  unfolding discover_char toLowerCase_flac_iff ..

text \<open>
  A listing with mixed letter case, a dot file, and an audio extension that is not the
  last one.
\<close>

lemma discover_mixed_listing:
  "discover [''a.flac'', ''b.jpg'', ''c.FLAC'', ''.flac'', ''d.flac.txt'', ''e.FlAc''] =
     [''a'', ''c'', ''e'']"
  by code_simp


subsection \<open>Reading traces\<close>

lemma itemsProcessed_append: "itemsProcessed (xs @ ys) = itemsProcessed xs @ itemsProcessed ys"
  by (simp add: itemsProcessed_def)

lemma spawns_append: "spawns (xs @ ys) = spawns xs @ spawns ys"
  by (simp add: spawns_def List.map_filter_def)

lemma spawns_Nil: "spawns [] = []"
  by (simp add: spawns_def List.map_filter_def)

lemma spawns_Log: "spawns (Log m # tr) = spawns tr"
  by (simp add: spawns_def List.map_filter_def)

lemma spawns_LogError: "spawns (LogError m # tr) = spawns tr"
  by (simp add: spawns_def List.map_filter_def)

lemma spawns_Spawn: "spawns (Spawn p args # tr) = args # spawns tr"
  by (simp add: spawns_def List.map_filter_def)

lemmas spawns_simps = spawns_Nil spawns_Log spawns_LogError spawns_Spawn

lemma itemsProcessed_item_free:
  "\<forall>e \<in> set tr. \<not> isItemEvent e \<Longrightarrow> itemsProcessed tr = []"
proof -
  assume a: "\<forall>e \<in> set tr. \<not> isItemEvent e"
  have "\<not> isItemStart e" if "e \<in> set tr" for e
    using a that by (cases e rule: isItemStart.cases) auto
  then show ?thesis by (simp add: itemsProcessed_def)
qed

lemma failureReport_kind:
  assumes "isFailureReport e"
  shows "isItemEvent e \<and> \<not> isItemStart e"
  using assms by (cases e rule: isFailureReport.cases) simp_all

subsection \<open>One engine run\<close>

lemma runFfmpeg_split:
  assumes "spawnChild env w (ffmpegPath env) (ffmpegArgs f j l out lang) = (c, w1)"
  shows "runFfmpeg env f j l out lang w =
    (case c of
       Close code \<Rightarrow>
         if code = Some 0
         then (Inr (), [Spawn (ffmpegPath env) (ffmpegArgs f j l out lang), Log (Created out)], w1)
         else (Inl FfmpegError,
               [Spawn (ffmpegPath env) (ffmpegArgs f j l out lang),
                LogError (ExitedWithCode code f)], w1)
     | ErrorEvent err \<Rightarrow>
         (Inl (SpawnError err),
          [Spawn (ffmpegPath env) (ffmpegArgs f j l out lang),
           LogError (FailedToStart f err)], w1))"
  using assms by (simp add: runFfmpeg_def Let_def split: child_outcome.splits)

lemma runFfmpeg_shape:
  assumes "runFfmpeg env f j l out lang w = (r, tr, w')"
  shows "\<exists>ev. tr = [Spawn (ffmpegPath env) (ffmpegArgs f j l out lang), ev] \<and>
           (r = Inr () \<longrightarrow> ev = Log (Created out)) \<and>
           (\<forall>e. r = Inl e \<longrightarrow> isFailureReport ev \<and> (\<forall>m. e \<noteq> ReaddirError m))"
proof -
  obtain c w1 where sp: "spawnChild env w (ffmpegPath env) (ffmpegArgs f j l out lang) = (c, w1)"
    by (cases "spawnChild env w (ffmpegPath env) (ffmpegArgs f j l out lang)")
  show ?thesis
    using assms unfolding runFfmpeg_split [OF sp]
    by (cases c) (auto split: if_splits)
qed

subsection \<open>One item\<close>

lemma processSingleFile_complete:
  assumes "existsSync env w (pathJoin env dir (b @ ''.flac''))"
    and "existsSync env w (pathJoin env dir (b @ ''.jpg''))"
    and "existsSync env w (pathJoin env dir (b @ ''.lrc''))"
  shows "processSingleFile env b lang dir w =
    (case runFfmpeg env (pathJoin env dir (b @ ''.flac'')) (pathJoin env dir (b @ ''.jpg''))
            (pathJoin env dir (b @ ''.lrc'')) (pathJoin env dir (b @ ''.m4a'')) lang w of
       (r, tr, w') \<Rightarrow> (r, Log (Processing (pathJoin env dir (b @ ''.flac''))) # tr, w'))"
  using assms by (simp add: processSingleFile_def Let_def)

lemma processSingleFile_incomplete:
  assumes "\<not> (existsSync env w (pathJoin env dir (b @ ''.flac'')) \<and>
       existsSync env w (pathJoin env dir (b @ ''.jpg'')) \<and>
       existsSync env w (pathJoin env dir (b @ ''.lrc'')))"
  shows "processSingleFile env b lang dir w = (Inr (), [Log (Skipping b)], w)"
  using assms by (auto simp: processSingleFile_def Let_def)

lemma processSingleFile_shape:
  assumes "processSingleFile env b lang dir w = (r, tr, w')"
  shows "(r = Inr () \<and> tr = [Log (Skipping b)] \<and> w' = w) \<or>
         (\<exists>ev. tr = [Log (Processing (pathJoin env dir (b @ ''.flac''))),
                     Spawn (ffmpegPath env)
                       (ffmpegArgs (pathJoin env dir (b @ ''.flac''))
                          (pathJoin env dir (b @ ''.jpg'')) (pathJoin env dir (b @ ''.lrc''))
                          (pathJoin env dir (b @ ''.m4a'')) lang), ev] \<and>
               (r = Inr () \<longrightarrow> ev = Log (Created (pathJoin env dir (b @ ''.m4a'')))) \<and>
               (\<forall>e. r = Inl e \<longrightarrow> isFailureReport ev \<and> (\<forall>m. e \<noteq> ReaddirError m)))"
proof (cases "existsSync env w (pathJoin env dir (b @ ''.flac'')) \<and>
       existsSync env w (pathJoin env dir (b @ ''.jpg'')) \<and>
       existsSync env w (pathJoin env dir (b @ ''.lrc''))")
  case False
  from processSingleFile_incomplete [OF False] assms show ?thesis by simp
next
  case True
  let ?run = "runFfmpeg env (pathJoin env dir (b @ ''.flac'')) (pathJoin env dir (b @ ''.jpg''))
            (pathJoin env dir (b @ ''.lrc'')) (pathJoin env dir (b @ ''.m4a'')) lang w"
  obtain r1 tr1 w1 where run: "?run = (r1, tr1, w1)" by (cases ?run)
  from True have "processSingleFile env b lang dir w =
      (r1, Log (Processing (pathJoin env dir (b @ ''.flac''))) # tr1, w1)"
    by (simp add: processSingleFile_complete run)
  with assms have eq: "r = r1" "tr = Log (Processing (pathJoin env dir (b @ ''.flac''))) # tr1"
    by simp_all
  from runFfmpeg_shape [OF run] eq show ?thesis by auto
qed

lemma runFfmpeg_spawns:
  "spawns (fst (snd (runFfmpeg env f j l out lang w))) = [ffmpegArgs f j l out lang]"
proof -
  obtain c w1 where sp: "spawnChild env w (ffmpegPath env) (ffmpegArgs f j l out lang) = (c, w1)"
    by (cases "spawnChild env w (ffmpegPath env) (ffmpegArgs f j l out lang)")
  show ?thesis
    unfolding runFfmpeg_split [OF sp] by (cases c) (simp_all add: spawns_simps)
qed

lemma processSingleFile_complete_spawns:
  assumes "existsSync env w (pathJoin env dir (b @ ''.flac''))"
    and "existsSync env w (pathJoin env dir (b @ ''.jpg''))"
    and "existsSync env w (pathJoin env dir (b @ ''.lrc''))"
  shows "spawns (fst (snd (processSingleFile env b lang dir w))) =
    [ffmpegArgs (pathJoin env dir (b @ ''.flac'')) (pathJoin env dir (b @ ''.jpg''))
       (pathJoin env dir (b @ ''.lrc'')) (pathJoin env dir (b @ ''.m4a'')) lang]"
proof -
  let ?run = "runFfmpeg env (pathJoin env dir (b @ ''.flac'')) (pathJoin env dir (b @ ''.jpg''))
      (pathJoin env dir (b @ ''.lrc'')) (pathJoin env dir (b @ ''.m4a'')) lang w"
  obtain r tr w' where run: "?run = (r, tr, w')" by (cases ?run)
  from runFfmpeg_spawns [of env "pathJoin env dir (b @ ''.flac'')"
      "pathJoin env dir (b @ ''.jpg'')" "pathJoin env dir (b @ ''.lrc'')"
      "pathJoin env dir (b @ ''.m4a'')" lang w]
  have "spawns tr = [ffmpegArgs (pathJoin env dir (b @ ''.flac''))
      (pathJoin env dir (b @ ''.jpg'')) (pathJoin env dir (b @ ''.lrc''))
      (pathJoin env dir (b @ ''.m4a'')) lang]"
    by (simp add: run)
  then show ?thesis
    unfolding processSingleFile_complete [OF assms] run by (simp add: spawns_simps)
qed

lemma processSingleFile_facts:
  assumes "processSingleFile env b lang dir w = (r, tr, w')"
  shows "length (itemsProcessed tr) = 1"
    and "\<forall>e \<in> set tr. isItemEvent e"
    and "tr \<noteq> []"
    and "r = Inr () \<Longrightarrow> filter isFailureReport tr = []"
    and "r = Inl e \<Longrightarrow> isFailureReport (last tr)"
    and "r = Inl e \<Longrightarrow> length (filter isFailureReport tr) = 1"
    and "r = Inl e \<Longrightarrow> \<exists>p. itemsProcessed tr = [Log (Processing p)]"
    and "r = Inl e \<Longrightarrow> e \<noteq> ReaddirError m"
proof -
  note sh = processSingleFile_shape [OF assms]
  show "length (itemsProcessed tr) = 1"
    using sh by (cases r) (auto simp: itemsProcessed_def dest: failureReport_kind)
  show "\<forall>e \<in> set tr. isItemEvent e"
    using sh by (cases r) (auto dest: failureReport_kind)
  show "tr \<noteq> []" using sh by auto
  show "filter isFailureReport tr = []" if "r = Inr ()"
    using sh that by auto
  show "isFailureReport (last tr)" if "r = Inl e"
    using sh that by auto
  show "length (filter isFailureReport tr) = 1" if "r = Inl e"
    using sh that by auto
  show "\<exists>p. itemsProcessed tr = [Log (Processing p)]" if "r = Inl e"
    using sh that by (auto simp: itemsProcessed_def dest: failureReport_kind)
  show "e \<noteq> ReaddirError m" if "r = Inl e"
    using sh that by auto
qed

subsection \<open>The loop\<close>

lemma forLoop_Cons_Inl:
  assumes "processSingleFile env (baseNameOf f) lang dir w = (Inl e, tr, w')"
  shows "forLoop env lang dir (f # rest) w = (Inl e, tr, w')"
  using assms by simp

lemma forLoop_Cons_Inr:
  assumes "processSingleFile env (baseNameOf f) lang dir w = (Inr u, tr, w1)"
    and "forLoop env lang dir rest w1 = (r, tr', w2)"
  shows "forLoop env lang dir (f # rest) w = (r, tr @ tr', w2)"
  using assms by simp

lemma forLoop_facts:
  assumes "forLoop env lang dir fs w = (r, tr, w')"
  shows "length (itemsProcessed tr) \<le> length fs \<and>
         (\<forall>e \<in> set tr. isItemEvent e) \<and>
         (r = Inr () \<longrightarrow> length (itemsProcessed tr) = length fs \<and> filter isFailureReport tr = []) \<and>
         (\<forall>e. r = Inl e \<longrightarrow>
            tr \<noteq> [] \<and> isFailureReport (last tr) \<and> length (filter isFailureReport tr) = 1 \<and>
            itemsProcessed tr \<noteq> [] \<and> (\<exists>p. last (itemsProcessed tr) = Log (Processing p)) \<and>
            (\<forall>m. e \<noteq> ReaddirError m))"
  using assms
proof (induction fs arbitrary: w r tr w')
  case Nil
  then show ?case by (auto simp: itemsProcessed_def)
next
  case (Cons f rest)
  obtain r1 tr1 w1 where p: "processSingleFile env (baseNameOf f) lang dir w = (r1, tr1, w1)"
    by (cases "processSingleFile env (baseNameOf f) lang dir w")
  note pf = processSingleFile_facts [OF p]
  show ?case
  proof (cases r1)
    case (Inl e)
    with p Cons.prems have eq: "r = Inl e" "tr = tr1" by simp_all
    from pf(1,2,3) pf(5-8) [OF Inl] show ?thesis
      unfolding eq by auto
  next
    case (Inr u)
    obtain r2 tr2 w2 where l: "forLoop env lang dir rest w1 = (r2, tr2, w2)"
      by (cases "forLoop env lang dir rest w1")
    from forLoop_Cons_Inr [OF p [unfolded Inr] l] Cons.prems
    have eq: "r = r2" "tr = tr1 @ tr2" by simp_all
    note ih = Cons.IH [OF l]
    have nofail: "filter isFailureReport tr1 = []" using pf(4) Inr by simp
    have a: "length (itemsProcessed tr) \<le> length (f # rest)"
      using ih pf(1) by (simp add: eq itemsProcessed_append)
    have b: "\<forall>e \<in> set tr. isItemEvent e" using ih pf(2) by (auto simp: eq)
    have c: "r = Inr () \<longrightarrow> length (itemsProcessed tr) = length (f # rest) \<and>
               filter isFailureReport tr = []"
      using ih pf(1) nofail by (simp add: eq itemsProcessed_append)
    have d: "\<forall>e. r = Inl e \<longrightarrow>
            tr \<noteq> [] \<and> isFailureReport (last tr) \<and> length (filter isFailureReport tr) = 1 \<and>
            itemsProcessed tr \<noteq> [] \<and> (\<exists>p. last (itemsProcessed tr) = Log (Processing p)) \<and>
            (\<forall>m. e \<noteq> ReaddirError m)"
      using ih nofail by (auto simp: eq itemsProcessed_append)
    from a b c d show ?thesis by blast
  qed
qed

text \<open>Which items the loop takes up, and in which order.\<close>

lemma processSingleFile_item:
  assumes "processSingleFile env b lang dir w = (r, tr, w')"
  shows "itemsProcessed tr = [Log (Skipping b)] \<or>
         itemsProcessed tr = [Log (Processing (pathJoin env dir (b @ ''.flac'')))]"
proof -
  from processSingleFile_shape [OF assms] show ?thesis
  proof
    assume "r = Inr () \<and> tr = [Log (Skipping b)] \<and> w' = w"
    then show ?thesis by (simp add: itemsProcessed_def)
  next
    assume "\<exists>ev. tr = [Log (Processing (pathJoin env dir (b @ ''.flac''))),
                     Spawn (ffmpegPath env)
                       (ffmpegArgs (pathJoin env dir (b @ ''.flac''))
                          (pathJoin env dir (b @ ''.jpg'')) (pathJoin env dir (b @ ''.lrc''))
                          (pathJoin env dir (b @ ''.m4a'')) lang), ev] \<and>
               (r = Inr () \<longrightarrow> ev = Log (Created (pathJoin env dir (b @ ''.m4a'')))) \<and>
               (\<forall>e. r = Inl e \<longrightarrow> isFailureReport ev \<and> (\<forall>m. e \<noteq> ReaddirError m))"
    then obtain ev where tr: "tr = [Log (Processing (pathJoin env dir (b @ ''.flac''))),
                     Spawn (ffmpegPath env)
                       (ffmpegArgs (pathJoin env dir (b @ ''.flac''))
                          (pathJoin env dir (b @ ''.jpg'')) (pathJoin env dir (b @ ''.lrc''))
                          (pathJoin env dir (b @ ''.m4a'')) lang), ev]"
      and ok: "r = Inr () \<longrightarrow> ev = Log (Created (pathJoin env dir (b @ ''.m4a'')))"
      and bad: "\<forall>e. r = Inl e \<longrightarrow> isFailureReport ev"
      by blast
    have "\<not> isItemStart ev"
    proof (cases r)
      case (Inl e)
      with bad show ?thesis using failureReport_kind by blast
    next
      case (Inr u)
      with ok show ?thesis by simp
    qed
    then show ?thesis by (simp add: tr itemsProcessed_def)
  qed
qed

lemma forLoop_items:
  assumes "forLoop env lang dir fs w = (r, tr, w')"
  shows "list_all2
           (\<lambda>ev b. ev = Log (Skipping b) \<or> ev = Log (Processing (pathJoin env dir (b @ ''.flac''))))
           (itemsProcessed tr) (take (length (itemsProcessed tr)) (map baseNameOf fs))"
  using assms
proof (induction fs arbitrary: w r tr w')
  case Nil
  then show ?case by (simp add: itemsProcessed_def)
next
  case (Cons f rest)
  obtain r1 tr1 w1 where p: "processSingleFile env (baseNameOf f) lang dir w = (r1, tr1, w1)"
    by (cases "processSingleFile env (baseNameOf f) lang dir w")
  note it = processSingleFile_item [OF p]
  show ?case
  proof (cases r1)
    case (Inl e)
    with p Cons.prems have eq: "tr = tr1" by simp
    from it show ?thesis unfolding eq by auto
  next
    case (Inr u)
    obtain r2 tr2 w2 where l: "forLoop env lang dir rest w1 = (r2, tr2, w2)"
      by (cases "forLoop env lang dir rest w1")
    from forLoop_Cons_Inr [OF p [unfolded Inr] l] Cons.prems
    have eq: "tr = tr1 @ tr2" by simp
    from it Cons.IH [OF l] show ?thesis
      unfolding eq itemsProcessed_append by auto
  qed
qed

subsection \<open>The directory scan and the whole run\<close>

lemma length_discover: "length (discover allFiles) = length (flacFilter allFiles)"
  by (simp add: discover_def)

lemma processDirectory_empty:
  assumes "readdirSync env w dir = Inr allFiles" and "flacFilter allFiles = []"
  shows "processDirectory env lang dir w = (Inr (), [Log NoFlacFiles], w)"
  using assms by (simp add: processDirectory_def)

lemma processDirectory_loop:
  assumes "readdirSync env w dir = Inr allFiles" and "flacFilter allFiles \<noteq> []"
  shows "processDirectory env lang dir w = forLoop env lang dir (flacFilter allFiles) w"
  using assms by (simp add: processDirectory_def Let_def)

lemma processDirectory_throws:
  assumes "readdirSync env w dir = Inl err"
  shows "processDirectory env lang dir w = (Inl (ReaddirError err), [], w)"
  using assms by (simp add: processDirectory_def)

lemma processDirectory_facts:
  assumes "processDirectory env lang dir w = (r, tr, w')"
  shows "Log Done \<notin> set tr"
    and "r = Inr () \<Longrightarrow> filter isFailureReport tr = []"
    and "r = Inl e \<Longrightarrow> (\<exists>m. e = ReaddirError m) \<or> filter isFailureReport tr \<noteq> []"
proof -
  show "Log Done \<notin> set tr"
  proof (cases "readdirSync env w dir")
    case (Inl err)
    from processDirectory_throws [OF Inl, of lang] assms show ?thesis by auto
  next
    case (Inr allFiles)
    show ?thesis
    proof (cases "flacFilter allFiles = []")
      case True
      from processDirectory_empty [OF Inr True, of lang] assms show ?thesis by auto
    next
      case False
      from processDirectory_loop [OF Inr False, of lang] assms
      have "forLoop env lang dir (flacFilter allFiles) w = (r, tr, w')" by simp
      from forLoop_facts [OF this] have "\<forall>e \<in> set tr. isItemEvent e" by blast
      then show ?thesis by auto
    qed
  qed
  show "filter isFailureReport tr = []" if "r = Inr ()"
  proof (cases "readdirSync env w dir")
    case (Inl err)
    from processDirectory_throws [OF Inl, of lang] assms show ?thesis by auto
  next
    case (Inr allFiles)
    show ?thesis
    proof (cases "flacFilter allFiles = []")
      case True
      from processDirectory_empty [OF Inr True, of lang] assms show ?thesis by auto
    next
      case False
      from processDirectory_loop [OF Inr False, of lang] assms
      have "forLoop env lang dir (flacFilter allFiles) w = (r, tr, w')" by simp
      from forLoop_facts [OF this] that show ?thesis by blast
    qed
  qed
  show "(\<exists>m. e = ReaddirError m) \<or> filter isFailureReport tr \<noteq> []" if "r = Inl e"
  proof (cases "readdirSync env w dir")
    case (Inl err)
    from processDirectory_throws [OF Inl, of lang] assms that show ?thesis by auto
  next
    case (Inr allFiles)
    show ?thesis
    proof (cases "flacFilter allFiles = []")
      case True
      from processDirectory_empty [OF Inr True, of lang] assms that show ?thesis by auto
    next
      case False
      from processDirectory_loop [OF Inr False, of lang] assms
      have "forLoop env lang dir (flacFilter allFiles) w = (r, tr, w')" by simp
      from forLoop_facts [OF this] that
      have "length (filter isFailureReport tr) = 1" by blast
      then show ?thesis by auto
    qed
  qed
qed

lemma ensure_trace:
  assumes "ensureFfmpegIsAvailable env w = (ok, tr0, w0)"
  shows "itemsProcessed tr0 = []" and "spawns tr0 = []"
    and "filter isFailureReport tr0 = []" and "Log Done \<notin> set tr0"
  using assms
  by (auto simp: ensureFfmpegIsAvailable_def itemsProcessed_def spawns_simps
      split: if_splits prod.splits option.splits)

lemma main_not_ready:
  assumes "ensureFfmpegIsAvailable env w = (False, tr0, w0)"
  shows "main env av w = (ProcessExit 1, tr0, w0)"
  using assms by (simp add: main_def)

lemma main_manual:
  assumes "ensureFfmpegIsAvailable env w = (True, tr0, w0)"
    and "argv_basename av = Some b" and "b \<noteq> []"
    and "processSingleFile env b (argv_lang av) (processCwd env) w0 = (r, tr, w1)"
  shows "main env av w =
    (case r of
       Inl e \<Rightarrow> (Rejected e, tr0 @ Log (ManualMode b) # tr, w1)
     | Inr u \<Rightarrow> (Fulfilled, tr0 @ Log (ManualMode b) # tr @ [Log Done], w1))"
  using assms by (simp add: main_def Let_def split: sum.splits)

lemma main_automatic:
  assumes "ensureFfmpegIsAvailable env w = (True, tr0, w0)"
    and "\<not> truthy (argv_basename av)"
    and "processDirectory env (argv_lang av) (processCwd env) w0 = (r, tr, w1)"
  shows "main env av w =
    (case r of
       Inl e \<Rightarrow> (Rejected e, tr0 @ Log (AutomaticMode (processCwd env)) # tr, w1)
     | Inr u \<Rightarrow>
         (Fulfilled, tr0 @ Log (AutomaticMode (processCwd env)) # tr @ [Log Done], w1))"
  using assms by (simp add: main_def Let_def split: sum.splits)

text \<open>
  After a successful pre-flight check a run is the pre-flight trace, one mode line, the
  trace \<open>tr\<close> of the mode's work, and \<open>Done\<close> when that work did not reject.
\<close>

lemma main_ready:
  assumes "ensureFfmpegIsAvailable env w = (True, tr0, w0)"
  shows "\<exists>m r tr w1.
    Log Done \<notin> set tr \<and>
    (r = Inr () \<longrightarrow> filter isFailureReport tr = []) \<and>
    (\<forall>e. r = Inl e \<longrightarrow> (\<exists>x. e = ReaddirError x) \<or> filter isFailureReport tr \<noteq> []) \<and>
    (m = ManualMode (the (argv_basename av)) \<or> m = AutomaticMode (processCwd env)) \<and>
    main env av w =
      (case r of
         Inl e \<Rightarrow> (Rejected e, tr0 @ Log m # tr, w1)
       | Inr u \<Rightarrow> (Fulfilled, tr0 @ Log m # tr @ [Log Done], w1))"
proof (cases "truthy (argv_basename av)")
  case True
  then obtain b where b: "argv_basename av = Some b" "b \<noteq> []"
    by (cases "argv_basename av") auto
  obtain r tr w1 where
    p: "processSingleFile env b (argv_lang av) (processCwd env) w0 = (r, tr, w1)"
    by (cases "processSingleFile env b (argv_lang av) (processCwd env) w0")
  note pf = processSingleFile_facts [OF p]
  have "Log Done \<notin> set tr" using pf(2) by auto
  moreover have "r = Inr () \<longrightarrow> filter isFailureReport tr = []" using pf(4) by simp
  moreover have "\<forall>e. r = Inl e \<longrightarrow> (\<exists>x. e = ReaddirError x) \<or> filter isFailureReport tr \<noteq> []"
    using pf(6) by fastforce
  ultimately show ?thesis
    using main_manual [OF assms b p] b(1) by (metis option.sel)
next
  case False
  obtain r tr w1 where
    p: "processDirectory env (argv_lang av) (processCwd env) w0 = (r, tr, w1)"
    by (cases "processDirectory env (argv_lang av) (processCwd env) w0")
  note pf = processDirectory_facts [OF p]
  have "r = Inr () \<longrightarrow> filter isFailureReport tr = []" using pf(2) by simp
  moreover have "\<forall>e. r = Inl e \<longrightarrow> (\<exists>x. e = ReaddirError x) \<or> filter isFailureReport tr \<noteq> []"
    using pf(3) by simp
  ultimately show ?thesis
    using main_automatic [OF assms False p] pf(1) by metis
qed

section \<open>The claims\<close>

lemmas run_defs = main_def ensureFfmpegIsAvailable_def processDirectory_def flacFilter_def
  path_extname_def toLowerCase_def lowerChar_def baseNameOf_def path_basename_def
  processSingleFile_def runFfmpeg_def ffmpegArgs_def existsSync_def tableEnv_def Let_def
  discover_def itemsProcessed_def spawns_simps albumFiles_def albumListing_def

subsection \<open>Claim C1\<close>

text \<open>
  C1, as the code has it. In automatic mode the loop takes the candidates in listing
  order: the items taken up are a first part of the candidate list, each with its
  \<open>Skipping\<close> or its \<open>Processing\<close> line. An item with a missing input prints its
  \<open>Skipping\<close> line and the loop goes on. An engine run that fails is not absorbed: the
  rejection leaves \<^verbatim>\<open>processSingleFile\<close> and ends the loop. When the scan is fulfilled
  it has taken up all \<open>N\<close> candidates and no engine run has failed. When it is rejected,
  exactly one engine run has failed, its report is the last event of the scan, and the
  item taken up last is the one whose engine run failed: no candidate after it is taken
  up.
\<close>

theorem C1_batch_stops_at_first_engine_failure:
  assumes "readdirSync env w dir = Inr allFiles"
    and "processDirectory env lang dir w = (r, tr, w')"
  shows "list_all2
      (\<lambda>ev b. ev = Log (Skipping b) \<or> ev = Log (Processing (pathJoin env dir (b @ ''.flac''))))
      (itemsProcessed tr) (take (length (itemsProcessed tr)) (discover allFiles)) \<and>
    length (itemsProcessed tr) \<le> length (discover allFiles) \<and>
    (r = Inr () \<longrightarrow>
       length (itemsProcessed tr) = length (discover allFiles) \<and>
       filter isFailureReport tr = []) \<and>
    (\<forall>e. r = Inl e \<longrightarrow>
       isFailureReport (last tr) \<and> length (filter isFailureReport tr) = 1 \<and>
       itemsProcessed tr \<noteq> [] \<and> (\<exists>p. last (itemsProcessed tr) = Log (Processing p)))"
proof (cases "flacFilter allFiles = []")
  case True
  from processDirectory_empty [OF assms(1) True, of lang] assms(2)
  have "r = Inr ()" "tr = [Log NoFlacFiles]" by simp_all
  then show ?thesis using True by (simp add: length_discover itemsProcessed_def)
next
  case False
  from processDirectory_loop [OF assms(1) False, of lang] assms(2)
  have l: "forLoop env lang dir (flacFilter allFiles) w = (r, tr, w')" by simp
  from forLoop_items [OF l]
  have "list_all2
      (\<lambda>ev b. ev = Log (Skipping b) \<or> ev = Log (Processing (pathJoin env dir (b @ ''.flac''))))
      (itemsProcessed tr) (take (length (itemsProcessed tr)) (discover allFiles))"
    by (simp add: discover_def)
  with forLoop_facts [OF l] show ?thesis
    unfolding length_discover by blast
qed

theorem C1_batch_stops_at_first_engine_failure_witness:
  "readdirSync albumEnv () ''/music'' = Inr albumListing \<and>
   fst (processDirectory albumEnv ''eng'' ''/music'' ()) = Inr () \<and>
   length (itemsProcessed (fst (snd (processDirectory albumEnv ''eng'' ''/music'' ())))) =
     length (discover albumListing)"
proof -
  have h1: "readdirSync albumEnv () ''/music'' = Inr albumListing"
    by (simp add: albumEnv_def tableEnv_def)
  have h2: "processDirectory albumEnv ''eng'' ''/music'' () =
      (Inr (),
       [Log (Processing ''/music/a.flac''), Spawn ''/bin/ffmpeg'' albumArgs,
        Log (Created ''/music/a.m4a''), Log (Skipping ''b'')], ())"
    by (simp add: albumEnv_def albumArgs_def run_defs)
  from C1_batch_stops_at_first_engine_failure [OF h1 h2] h1 show ?thesis
    unfolding h2 by simp
qed

text \<open>
  C1 as stated fails: with the files \<^verbatim>\<open>a.flac\<close>, \<^verbatim>\<open>a.jpg\<close>, \<^verbatim>\<open>a.lrc\<close> and
  \<^verbatim>\<open>b.flac\<close> and an engine that exits with status 1, the scan has two candidates,
  takes up the first one only and is rejected.
\<close>

theorem C1_batch_aborts_counterexample:
  "length (discover albumListing) = 2 \<and>
   fst (processDirectory failingEnv ''eng'' ''/music'' ()) = Inl FfmpegError \<and>
   itemsProcessed (fst (snd (processDirectory failingEnv ''eng'' ''/music'' ()))) =
     [Log (Processing ''/music/a.flac'')]"
  by (simp add: failingEnv_def run_defs)


subsection \<open>Claim C2\<close>

text \<open>
  C2, as the code has it. \<^verbatim>\<open>process.exit\<close> is called with status 1 only, exactly when
  the pre-flight check fails, and then no item is taken up and no engine is launched.
  \<^verbatim>\<open>main\<close> runs to its end, with \<open>Done\<close> as its last line and exit status 0, exactly
  when the check succeeds, no engine run fails and the directory can be listed. A run in
  which an engine run fails ends with the promise of \<^verbatim>\<open>main\<close> rejected, and \<open>Done\<close>
  is not printed.
\<close>

theorem C2_exit_status:
  assumes "main env av w = (e, tr, w')"
  shows "(e = ProcessExit 1 \<longleftrightarrow> \<not> fst (ensureFfmpegIsAvailable env w)) \<and>
    (\<forall>n. e = ProcessExit n \<longrightarrow> n = 1 \<and> itemsProcessed tr = [] \<and> spawns tr = []) \<and>
    (e = Fulfilled \<longleftrightarrow>
       fst (ensureFfmpegIsAvailable env w) \<and> filter isFailureReport tr = [] \<and>
       (\<forall>m. e \<noteq> Rejected (ReaddirError m))) \<and>
    (e = Fulfilled \<longrightarrow> exitStatus unhandled e = 0 \<and> last tr = Log Done) \<and>
    (\<forall>err. e = Rejected err \<longrightarrow> Log Done \<notin> set tr)"
proof -
  obtain ok tr0 w0 where en: "ensureFfmpegIsAvailable env w = (ok, tr0, w0)"
    by (cases "ensureFfmpegIsAvailable env w")
  note et = ensure_trace [OF en]
  show ?thesis
  proof (cases ok)
    case False
    from en False have "ensureFfmpegIsAvailable env w = (False, tr0, w0)" by simp
    from main_not_ready [OF this, of av] assms
    have "e = ProcessExit 1" "tr = tr0" by simp_all
    then show ?thesis using et en False by simp
  next
    case True
    from en True have "ensureFfmpegIsAvailable env w = (True, tr0, w0)" by simp
    from main_ready [OF this, of av] obtain m r tr1 w1 where
      d: "Log Done \<notin> set tr1" and
      ok: "r = Inr () \<longrightarrow> filter isFailureReport tr1 = []" and
      bad: "\<forall>x. r = Inl x \<longrightarrow> (\<exists>y. x = ReaddirError y) \<or> filter isFailureReport tr1 \<noteq> []" and
      m: "m = ManualMode (the (argv_basename av)) \<or> m = AutomaticMode (processCwd env)" and
      run: "main env av w =
        (case r of
           Inl x \<Rightarrow> (Rejected x, tr0 @ Log m # tr1, w1)
         | Inr u \<Rightarrow> (Fulfilled, tr0 @ Log m # tr1 @ [Log Done], w1))"
      by blast
    have nf: "\<not> isFailureReport (Log m)" by simp
    have nd: "Log m \<noteq> Log Done" using m by auto
    show ?thesis
    proof (cases r)
      case (Inl x)
      with run assms have eq: "e = Rejected x" "tr = tr0 @ Log m # tr1" by simp_all
      from bad Inl have "(\<exists>y. x = ReaddirError y) \<or> filter isFailureReport tr1 \<noteq> []" by simp
      then show ?thesis
        unfolding eq using et(4) d nd en True by auto
    next
      case (Inr u)
      with run assms have eq: "e = Fulfilled" "tr = tr0 @ Log m # tr1 @ [Log Done]"
        by simp_all
      from ok Inr have "filter isFailureReport tr1 = []" by simp
      then show ?thesis
        unfolding eq using et(3) en True by simp
    qed
  qed
qed

theorem C2_exit_status_witness:
  "fst (main albumEnv autoArgv ()) = Fulfilled \<and>
   exitStatus 1 (fst (main albumEnv autoArgv ())) = 0 \<and>
   last (fst (snd (main albumEnv autoArgv ()))) = Log Done \<and>
   fst (main offlineEnv autoArgv ()) = ProcessExit 1 \<and>
   \<not> fst (ensureFfmpegIsAvailable offlineEnv ()) \<and>
   spawns (fst (snd (main offlineEnv autoArgv ()))) = []"
proof -
  have h1: "main albumEnv autoArgv () =
      (Fulfilled,
       [Log (AutomaticMode ''/music''), Log (Processing ''/music/a.flac''),
        Spawn ''/bin/ffmpeg'' albumArgs, Log (Created ''/music/a.m4a''),
        Log (Skipping ''b''), Log Done], ())"
    by (simp add: albumEnv_def autoArgv_def albumArgs_def run_defs)
  have h2: "main offlineEnv autoArgv () =
      (ProcessExit 1,
       [Log FfmpegNotFound, Log MayTakeAMoment, LogError (DownloadFailed ''ENOTFOUND''),
        LogError CheckNetwork], ())"
    by (simp add: offlineEnv_def autoArgv_def run_defs)
  from C2_exit_status [OF h1, of 1] C2_exit_status [OF h2, of 1] show ?thesis
    unfolding h1 h2 by simp
qed

text \<open>
  C2 as stated fails: in the directory above, with an engine that exits with status 1, the
  pre-flight check succeeds and the run does not complete: the promise of \<^verbatim>\<open>main\<close> is
  rejected, \<open>Done\<close> is not printed, and the exit status is the one of an unhandled
  rejection, which is 1 in Node 15 and later.
\<close>

theorem C2_failed_item_counterexample:
  "fst (ensureFfmpegIsAvailable failingEnv ()) \<and>
   fst (main failingEnv autoArgv ()) = Rejected FfmpegError \<and>
   Log Done \<notin> set (fst (snd (main failingEnv autoArgv ()))) \<and>
   exitStatus 1 (fst (main failingEnv autoArgv ())) = 1"
  by (simp add: failingEnv_def autoArgv_def run_defs)


subsection \<open>Claim C3\<close>

text \<open>
  C3. When the three input files of base name \<open>b\<close> exist, \<^verbatim>\<open>processSingleFile\<close>
  launches the engine exactly once, with the argument list of the engine contract built
  from the derived paths and the language tag as given; its promise is fulfilled, and the
  success line printed, exactly when the engine's \<^verbatim>\<open>close\<close> event carries status 0.
\<close>

theorem C3_complete_item_invokes_engine_once:
  assumes "existsSync env w (pathJoin env dir (b @ ''.flac''))"
    and "existsSync env w (pathJoin env dir (b @ ''.jpg''))"
    and "existsSync env w (pathJoin env dir (b @ ''.lrc''))"
  shows
    "(let args =
        [''-i'', pathJoin env dir (b @ ''.flac''),
         ''-i'', pathJoin env dir (b @ ''.jpg''),
         ''-i'', pathJoin env dir (b @ ''.lrc''),
         ''-c:a'', ''alac'', ''-c:v'', ''copy'', ''-c:s'', ''mov_text'',
         ''-map'', ''0:a'', ''-map'', ''1:v'', ''-map'', ''2:s'',
         ''-metadata:s:s:0'', ''language='' @ lang,
         ''-disposition:v'', ''attached_pic'',
         ''-y'', pathJoin env dir (b @ ''.m4a'')];
         run = processSingleFile env b lang dir w;
         exit0 = (fst (spawnChild env w (ffmpegPath env) args) = Close (Some 0))
      in filter (\<lambda>e. e = Spawn (ffmpegPath env) args) (fst (snd run)) =
           [Spawn (ffmpegPath env) args] \<and>
         spawns (fst (snd run)) = [args] \<and>
         (fst run = Inr ()) = exit0 \<and>
         (Log (Created (pathJoin env dir (b @ ''.m4a''))) \<in> set (fst (snd run))) = exit0)"
proof -
  let ?F = "pathJoin env dir (b @ ''.flac'')" and ?J = "pathJoin env dir (b @ ''.jpg'')"
  let ?L = "pathJoin env dir (b @ ''.lrc'')" and ?O = "pathJoin env dir (b @ ''.m4a'')"
  obtain c w1 where sp:
    "spawnChild env w (ffmpegPath env) (ffmpegArgs ?F ?J ?L ?O lang) = (c, w1)"
    by (cases "spawnChild env w (ffmpegPath env) (ffmpegArgs ?F ?J ?L ?O lang)")
  have run: "processSingleFile env b lang dir w =
      (case runFfmpeg env ?F ?J ?L ?O lang w of
         (r, tr, w') \<Rightarrow> (r, Log (Processing ?F) # tr, w'))"
    by (rule processSingleFile_complete [OF assms])
  have sp': "spawnChild env w (ffmpegPath env)
      [''-i'', ?F, ''-i'', ?J, ''-i'', ?L,
       ''-c:a'', ''alac'', ''-c:v'', ''copy'', ''-c:s'', ''mov_text'',
       ''-map'', ''0:a'', ''-map'', ''1:v'', ''-map'', ''2:s'',
       ''-metadata:s:s:0'', ''language='' @ lang,
       ''-disposition:v'', ''attached_pic'', ''-y'', ?O] = (c, w1)"
    using sp by (simp add: ffmpegArgs_def)
  show ?thesis
    unfolding Let_def run runFfmpeg_split [OF sp] sp'
    by (cases c) (simp_all add: ffmpegArgs_def spawns_simps)
qed

theorem C3_complete_item_invokes_engine_once_witness:
  "existsSync albumEnv () ''/music/a.flac'' \<and> existsSync albumEnv () ''/music/a.jpg'' \<and>
   existsSync albumEnv () ''/music/a.lrc'' \<and>
   spawns (fst (snd (processSingleFile albumEnv ''a'' ''eng'' ''/music'' ()))) =
     [[''-i'', ''/music/a.flac'', ''-i'', ''/music/a.jpg'', ''-i'', ''/music/a.lrc'',
       ''-c:a'', ''alac'', ''-c:v'', ''copy'', ''-c:s'', ''mov_text'',
       ''-map'', ''0:a'', ''-map'', ''1:v'', ''-map'', ''2:s'',
       ''-metadata:s:s:0'', ''language=eng'', ''-disposition:v'', ''attached_pic'',
       ''-y'', ''/music/a.m4a'']] \<and>
   fst (processSingleFile albumEnv ''a'' ''eng'' ''/music'' ()) = Inr ()"
proof -
  have j: "pathJoin albumEnv ''/music'' (''a'' @ ''.flac'') = ''/music/a.flac''"
    "pathJoin albumEnv ''/music'' (''a'' @ ''.jpg'') = ''/music/a.jpg''"
    "pathJoin albumEnv ''/music'' (''a'' @ ''.lrc'') = ''/music/a.lrc''"
    "pathJoin albumEnv ''/music'' (''a'' @ ''.m4a'') = ''/music/a.m4a''"
    by (simp_all add: albumEnv_def tableEnv_def)
  have h: "existsSync albumEnv () ''/music/a.flac''" "existsSync albumEnv () ''/music/a.jpg''"
    "existsSync albumEnv () ''/music/a.lrc''"
    by (simp_all add: albumEnv_def tableEnv_def existsSync_def albumFiles_def)
  have s: "spawnChild albumEnv () p args = (Close (Some 0), ())" for p args
    by (simp add: albumEnv_def tableEnv_def)
  from C3_complete_item_invokes_engine_once
    [of albumEnv "()" "''/music''" "''a''" "''eng''", unfolded j, OF h]
  show ?thesis using h by (simp add: Let_def s)
qed


subsection \<open>Claim C4\<close>

text \<open>
  C4. The candidates of a directory listing are the entries whose extension is
  \<^verbatim>\<open>.flac\<close> in any mix of upper and lower case, each cut by its extension: one base
  name for each such entry, nothing for any other entry, in the order of the listing.
  An entry has this extension when its last five characters are a dot, \<open>f\<close> or \<open>F\<close>,
  \<open>l\<close> or \<open>L\<close>, \<open>a\<close> or \<open>A\<close>, \<open>c\<close> or \<open>C\<close>, and something stands before them (the
  entry named \<^verbatim>\<open>.flac\<close> alone has no extension for \<^verbatim>\<open>path.extname\<close>). The scan
  reads one listing and never descends.
\<close>

theorem C4_discover_flac_base_names:
  "discover allFiles =
     map (\<lambda>f. take (length f - 5) f)
       (filter
          (\<lambda>f. 6 \<le> length f \<and>
             (\<exists>c1 \<in> {CHR ''f'', CHR ''F''}. \<exists>c2 \<in> {CHR ''l'', CHR ''L''}.
              \<exists>c3 \<in> {CHR ''a'', CHR ''A''}. \<exists>c4 \<in> {CHR ''c'', CHR ''C''}.
                drop (length f - 5) f = [CHR ''.'', c1, c2, c3, c4]))
          allFiles) \<and>
   length (discover allFiles) =
     length
       (filter
          (\<lambda>f. 6 \<le> length f \<and>
             (\<exists>c1 \<in> {CHR ''f'', CHR ''F''}. \<exists>c2 \<in> {CHR ''l'', CHR ''L''}.
              \<exists>c3 \<in> {CHR ''a'', CHR ''A''}. \<exists>c4 \<in> {CHR ''c'', CHR ''C''}.
                drop (length f - 5) f = [CHR ''.'', c1, c2, c3, c4]))
          allFiles) \<and>
   discover (xs @ ys) = discover xs @ discover ys \<and>
   processDirectory env lang dir w =
     (case readdirSync env w dir of
        Inl err \<Rightarrow> (Inl (ReaddirError err), [], w)
      | Inr entries \<Rightarrow>
          if discover entries = [] then (Inr (), [Log NoFlacFiles], w)
          else forLoop env lang dir (flacFilter entries) w)"
proof -
  have "processDirectory env lang dir w =
     (case readdirSync env w dir of
        Inl err \<Rightarrow> (Inl (ReaddirError err), [], w)
      | Inr entries \<Rightarrow>
          if discover entries = [] then (Inr (), [Log NoFlacFiles], w)
          else forLoop env lang dir (flacFilter entries) w)"
    by (simp add: processDirectory_def discover_def Let_def split: sum.splits)
  moreover have "discover (xs @ ys) = discover xs @ discover ys"
    by (simp add: discover_def flacFilter_def)
  ultimately show ?thesis
    using discover_spellings [of allFiles] by simp
qed

theorem C4_discover_flac_base_names_witness:
  "discover [''a.flac'', ''b.jpg'', ''c.FLAC'', ''.flac'', ''d.flac.txt'', ''e.FlAc''] =
     [''a'', ''c'', ''e''] \<and>
   discover [''a.flc'', ''flac'', ''b.flac.bak'', ''C.Flac''] = [''C'']"
proof -
  have "discover [''a.flac'', ''b.jpg'', ''c.FLAC'', ''.flac'', ''d.flac.txt'', ''e.FlAc''] =
      [''a'', ''c'', ''e'']"
    using C4_discover_flac_base_names
      [of "[''a.flac'', ''b.jpg'', ''c.FLAC'', ''.flac'', ''d.flac.txt'', ''e.FlAc'']",
        THEN conjunct1]
    by simp
  moreover have "discover [''a.flc'', ''flac'', ''b.flac.bak'', ''C.Flac''] = [''C'']"
    using C4_discover_flac_base_names
      [of "[''a.flc'', ''flac'', ''b.flac.bak'', ''C.Flac'']", THEN conjunct1]
    by simp
  ultimately show ?thesis by simp
qed

subsection \<open>Claim C5\<close>

text \<open>
  C5. When one of the three input files of base name \<open>b\<close> is missing,
  \<^verbatim>\<open>processSingleFile\<close> prints the \<open>Skipping\<close> line and nothing else, launches no
  engine, leaves the world as it was, and its promise is fulfilled; the loop of the batch
  then goes on with the entries that follow.
\<close>

theorem C5_incomplete_item_is_skipped:
  assumes "\<not> (existsSync env w (pathJoin env dir (b @ ''.flac'')) \<and>
       existsSync env w (pathJoin env dir (b @ ''.jpg'')) \<and>
       existsSync env w (pathJoin env dir (b @ ''.lrc'')))"
  shows "processSingleFile env b lang dir w = (Inr (), [Log (Skipping b)], w) \<and>
    spawns (fst (snd (processSingleFile env b lang dir w))) = [] \<and>
    (baseNameOf flacFile = b \<longrightarrow>
       forLoop env lang dir (flacFile # rest) w =
         (case forLoop env lang dir rest w of
            (r, tr, w') \<Rightarrow> (r, Log (Skipping b) # tr, w')))"
proof -
  have p: "processSingleFile env b lang dir w = (Inr (), [Log (Skipping b)], w)"
    by (rule processSingleFile_incomplete [OF assms])
  then show ?thesis by (auto simp: spawns_simps split: prod.splits)
qed

theorem C5_incomplete_item_is_skipped_witness:
  "\<not> existsSync albumEnv () ''/music/b.jpg'' \<and>
   processSingleFile albumEnv ''b'' ''eng'' ''/music'' () = (Inr (), [Log (Skipping ''b'')], ()) \<and>
   forLoop albumEnv ''eng'' ''/music'' [''b.flac'', ''a.flac''] () =
     (Inr (),
      [Log (Skipping ''b''), Log (Processing ''/music/a.flac''),
       Spawn ''/bin/ffmpeg'' albumArgs, Log (Created ''/music/a.m4a'')], ())"
proof -
  have j: "pathJoin albumEnv ''/music'' (''b'' @ ''.flac'') = ''/music/b.flac''"
    "pathJoin albumEnv ''/music'' (''b'' @ ''.jpg'') = ''/music/b.jpg''"
    "pathJoin albumEnv ''/music'' (''b'' @ ''.lrc'') = ''/music/b.lrc''"
    by (simp_all add: albumEnv_def tableEnv_def)
  have h: "\<not> existsSync albumEnv () ''/music/b.jpg''"
    by (simp add: albumEnv_def tableEnv_def existsSync_def albumFiles_def)
  then have h': "\<not> (existsSync albumEnv () ''/music/b.flac'' \<and>
      existsSync albumEnv () ''/music/b.jpg'' \<and> existsSync albumEnv () ''/music/b.lrc'')"
    by simp
  have b: "baseNameOf ''b.flac'' = ''b''"
    by (simp add: run_defs)
  have rest: "forLoop albumEnv ''eng'' ''/music'' [''a.flac''] () =
      (Inr (),
       [Log (Processing ''/music/a.flac''), Spawn ''/bin/ffmpeg'' albumArgs,
        Log (Created ''/music/a.m4a'')], ())"
    by (simp add: albumEnv_def albumArgs_def run_defs)
  note t = C5_incomplete_item_is_skipped
    [of albumEnv "()" "''/music''" "''b''" "''eng''" "''b.flac''" "[''a.flac'']",
      unfolded j, OF h']
  from t have "processSingleFile albumEnv ''b'' ''eng'' ''/music'' () =
      (Inr (), [Log (Skipping ''b'')], ())"
    by blast
  moreover from t b have "forLoop albumEnv ''eng'' ''/music'' [''b.flac'', ''a.flac''] () =
      (case forLoop albumEnv ''eng'' ''/music'' [''a.flac''] () of
         (r, tr, w') \<Rightarrow> (r, Log (Skipping ''b'') # tr, w'))"
    by blast
  ultimately show ?thesis using h unfolding rest by simp
qed


subsection \<open>Claim C6\<close>

text \<open>
  C6, as the code has it. The promise of \<^verbatim>\<open>runFfmpeg\<close> is decided by the settling
  event of the child alone: a \<^verbatim>\<open>close\<close> with status 0 resolves it; any other
  \<^verbatim>\<open>close\<close> rejects it with the one fixed error \<open>FfmpegError\<close>, which holds no exit
  code (the code is printed on the error console only); an \<^verbatim>\<open>error\<close> event rejects it
  with the launch error itself, a different value. The engine is launched exactly once:
  nothing is retried.
\<close>

theorem C6_engine_result:
  "fst (runFfmpeg env f j l out lang w) =
     (case fst (spawnChild env w (ffmpegPath env) (ffmpegArgs f j l out lang)) of
        Close code \<Rightarrow> if code = Some 0 then Inr () else Inl FfmpegError
      | ErrorEvent err \<Rightarrow> Inl (SpawnError err)) \<and>
   spawns (fst (snd (runFfmpeg env f j l out lang w))) = [ffmpegArgs f j l out lang] \<and>
   snd (snd (runFfmpeg env f j l out lang w)) =
     snd (spawnChild env w (ffmpegPath env) (ffmpegArgs f j l out lang)) \<and>
   (\<forall>code. fst (spawnChild env w (ffmpegPath env) (ffmpegArgs f j l out lang)) = Close code \<and>
       code \<noteq> Some 0 \<longrightarrow>
       last (fst (snd (runFfmpeg env f j l out lang w))) = LogError (ExitedWithCode code f)) \<and>
   FfmpegError \<noteq> SpawnError err'"
proof -
  obtain c w1 where sp: "spawnChild env w (ffmpegPath env) (ffmpegArgs f j l out lang) = (c, w1)"
    by (cases "spawnChild env w (ffmpegPath env) (ffmpegArgs f j l out lang)")
  show ?thesis
    unfolding runFfmpeg_split [OF sp] sp
    by (cases c) (simp_all add: spawns_simps)
qed

theorem C6_engine_result_witness:
  "fst (spawnChild failingEnv () ''/bin/ffmpeg'' albumArgs) = Close (Some 1) \<and>
   last (fst (snd (runFfmpeg failingEnv ''/music/a.flac'' ''/music/a.jpg'' ''/music/a.lrc''
      ''/music/a.m4a'' ''eng'' ()))) = LogError (ExitedWithCode (Some 1) ''/music/a.flac'')"
proof -
  have s: "spawnChild failingEnv () p args = (Close (Some 1), ())" for p args
    by (simp add: failingEnv_def tableEnv_def)
  have p: "ffmpegPath failingEnv = ''/bin/ffmpeg''"
    by (simp add: failingEnv_def tableEnv_def)
  from C6_engine_result [of failingEnv "''/music/a.flac''" "''/music/a.jpg''"
      "''/music/a.lrc''" "''/music/a.m4a''" "''eng''" "()"]
  show ?thesis by (simp add: s)
qed

text \<open>
  C6 as stated fails: an engine that exits with status 1 and an engine that exits with
  status 2 give the caller the same error, so the error does not carry the exit code.
\<close>

theorem C6_error_without_exit_code_counterexample:
  "fst (spawnChild failingEnv () ''/bin/ffmpeg'' albumArgs) = Close (Some 1) \<and>
   fst (spawnChild failingEnv2 () ''/bin/ffmpeg'' albumArgs) = Close (Some 2) \<and>
   fst (runFfmpeg failingEnv ''/music/a.flac'' ''/music/a.jpg'' ''/music/a.lrc''
      ''/music/a.m4a'' ''eng'' ()) = Inl FfmpegError \<and>
   fst (runFfmpeg failingEnv2 ''/music/a.flac'' ''/music/a.jpg'' ''/music/a.lrc''
      ''/music/a.m4a'' ''eng'' ()) = Inl FfmpegError"
  by (simp add: failingEnv_def failingEnv2_def tableEnv_def runFfmpeg_def)


subsection \<open>Claim C7\<close>

text \<open>
  C7. In automatic mode, after a successful pre-flight check, a listing without a
  candidate makes the run print that no audio file was found and then \<open>Done\<close>: no item is
  taken up, no engine is launched, the world is left as the check left it, and the run
  ends with status 0.
\<close>

theorem C7_no_candidates_clean_exit:
  assumes "ensureFfmpegIsAvailable env w = (True, tr0, w0)"
    and "\<not> truthy (argv_basename av)"
    and "readdirSync env w0 (processCwd env) = Inr allFiles"
    and "discover allFiles = []"
  shows "main env av w =
      (Fulfilled, tr0 @ [Log (AutomaticMode (processCwd env)), Log NoFlacFiles, Log Done], w0) \<and>
    itemsProcessed (fst (snd (main env av w))) = [] \<and>
    spawns (fst (snd (main env av w))) = [] \<and>
    exitStatus unhandled (fst (main env av w)) = 0"
proof -
  from assms(4) have "flacFilter allFiles = []" by (simp add: discover_def)
  from processDirectory_empty [OF assms(3) this]
  have "processDirectory env (argv_lang av) (processCwd env) w0 = (Inr (), [Log NoFlacFiles], w0)" .
  from main_automatic [OF assms(1,2) this]
  have m: "main env av w =
      (Fulfilled, tr0 @ [Log (AutomaticMode (processCwd env)), Log NoFlacFiles, Log Done], w0)"
    by simp
  note et = ensure_trace [OF assms(1)]
  show ?thesis
    unfolding m using et(1,2)
    by (simp add: itemsProcessed_append spawns_append spawns_simps) (simp add: itemsProcessed_def)
qed

theorem C7_no_candidates_clean_exit_witness:
  "ensureFfmpegIsAvailable noAudioEnv () = (True, [], ()) \<and>
   discover [''notes.txt''] = [] \<and>
   main noAudioEnv autoArgv () =
     (Fulfilled, [Log (AutomaticMode ''/music''), Log NoFlacFiles, Log Done], ()) \<and>
   exitStatus 1 (fst (main noAudioEnv autoArgv ())) = 0"
proof -
  have h1: "ensureFfmpegIsAvailable noAudioEnv () = (True, [], ())"
    by (simp add: noAudioEnv_def run_defs)
  have h2: "\<not> truthy (argv_basename autoArgv)" by (simp add: autoArgv_def)
  have h3: "readdirSync noAudioEnv () (processCwd noAudioEnv) = Inr [''notes.txt'']"
    by (simp add: noAudioEnv_def tableEnv_def)
  have h4: "discover [''notes.txt''] = []" by (simp add: run_defs)
  have c: "processCwd noAudioEnv = ''/music''" by (simp add: noAudioEnv_def tableEnv_def)
  from C7_no_candidates_clean_exit [OF h1 h2 h3 h4, of 1] h1 h4 show ?thesis
    by (simp add: c)
qed


subsection \<open>Claim C8\<close>

text \<open>
  C8, as the code has it. The four paths of an item are the working directory joined
  with the base name followed by \<^verbatim>\<open>.flac\<close>, \<^verbatim>\<open>.jpg\<close>, \<^verbatim>\<open>.lrc\<close> and \<^verbatim>\<open>.m4a\<close>.
  The item is taken as complete, and the engine launched on these four paths, exactly
  when \<^verbatim>\<open>fs.existsSync\<close> holds of the three input paths; what kind of entry stands at
  a path is not looked at.
\<close>

theorem C8_paths_and_completeness:
  "(spawns (fst (snd (processSingleFile env b lang dir w))) \<noteq> []) =
     (existsSync env w (pathJoin env dir (b @ ''.flac'')) \<and>
      existsSync env w (pathJoin env dir (b @ ''.jpg'')) \<and>
      existsSync env w (pathJoin env dir (b @ ''.lrc''))) \<and>
   (spawns (fst (snd (processSingleFile env b lang dir w))) = [] \<or>
    spawns (fst (snd (processSingleFile env b lang dir w))) =
      [ffmpegArgs (pathJoin env dir (b @ ''.flac'')) (pathJoin env dir (b @ ''.jpg''))
         (pathJoin env dir (b @ ''.lrc'')) (pathJoin env dir (b @ ''.m4a'')) lang]) \<and>
   (existsSync env w p = (\<exists>k. lookupPath env w p = Some k))"
proof -
  have ex: "existsSync env w p = (\<exists>k. lookupPath env w p = Some k)"
    by (simp add: existsSync_def split: option.splits)
  show ?thesis
  proof (cases "existsSync env w (pathJoin env dir (b @ ''.flac'')) \<and>
       existsSync env w (pathJoin env dir (b @ ''.jpg'')) \<and>
       existsSync env w (pathJoin env dir (b @ ''.lrc''))")
    case False
    from processSingleFile_incomplete [OF False, of lang] False ex show ?thesis
      by (simp add: spawns_simps)
  next
    case True
    then have "spawns (fst (snd (processSingleFile env b lang dir w))) =
        [ffmpegArgs (pathJoin env dir (b @ ''.flac''))
        (pathJoin env dir (b @ ''.jpg'')) (pathJoin env dir (b @ ''.lrc''))
        (pathJoin env dir (b @ ''.m4a'')) lang]"
      by (simp add: processSingleFile_complete_spawns)
    with True ex show ?thesis by simp
  qed
qed

theorem C8_paths_and_completeness_witness:
  "existsSync albumEnv () ''/music/a.flac'' \<and> existsSync albumEnv () ''/music/a.jpg'' \<and>
   existsSync albumEnv () ''/music/a.lrc'' \<and>
   spawns (fst (snd (processSingleFile albumEnv ''a'' ''eng'' ''/music'' ()))) = [albumArgs] \<and>
   \<not> existsSync albumEnv () ''/music/b.lrc'' \<and>
   spawns (fst (snd (processSingleFile albumEnv ''b'' ''eng'' ''/music'' ()))) = []"
proof -
  have j: "pathJoin albumEnv ''/music'' (''a'' @ ''.flac'') = ''/music/a.flac''"
    "pathJoin albumEnv ''/music'' (''a'' @ ''.jpg'') = ''/music/a.jpg''"
    "pathJoin albumEnv ''/music'' (''a'' @ ''.lrc'') = ''/music/a.lrc''"
    "pathJoin albumEnv ''/music'' (''a'' @ ''.m4a'') = ''/music/a.m4a''"
    "pathJoin albumEnv ''/music'' (''b'' @ ''.flac'') = ''/music/b.flac''"
    "pathJoin albumEnv ''/music'' (''b'' @ ''.jpg'') = ''/music/b.jpg''"
    "pathJoin albumEnv ''/music'' (''b'' @ ''.lrc'') = ''/music/b.lrc''"
    "pathJoin albumEnv ''/music'' (''b'' @ ''.m4a'') = ''/music/b.m4a''"
    by (simp_all add: albumEnv_def tableEnv_def)
  have h: "existsSync albumEnv () ''/music/a.flac''" "existsSync albumEnv () ''/music/a.jpg''"
    "existsSync albumEnv () ''/music/a.lrc''" "\<not> existsSync albumEnv () ''/music/b.lrc''"
    by (simp_all add: albumEnv_def tableEnv_def existsSync_def albumFiles_def)
  from C8_paths_and_completeness [of albumEnv "''a''" "''eng''" "''/music''" "()", unfolded j]
    C8_paths_and_completeness [of albumEnv "''b''" "''eng''" "''/music''" "()", unfolded j]
  show ?thesis using h by (auto simp: albumArgs_def)
qed

text \<open>
  C8 as stated fails: where \<^verbatim>\<open>a.jpg\<close> is a directory, the item \<open>a\<close> is taken as
  complete and the engine is launched, though one of its input paths is no regular file.
\<close>

theorem C8_directory_input_counterexample:
  "lookupPath coverDirEnv () ''/music/a.jpg'' = Some Directory \<and>
   \<not> isRegularFile coverDirEnv () ''/music/a.jpg'' \<and>
   spawns (fst (snd (processSingleFile coverDirEnv ''a'' ''eng'' ''/music'' ()))) = [albumArgs]"
  by (simp add: coverDirEnv_def isRegularFile_def albumArgs_def run_defs)


subsection \<open>Claim C9\<close>




subsection \<open>Claim C10\<close>

text \<open>
  C10. \<^verbatim>\<open>main\<close> tests the truth value of the positional argument, and the empty
  string is false. After a successful pre-flight check, a run given the empty string is
  the run given no base name at all: it prints the automatic-mode line and is the
  directory scan of \<^verbatim>\<open>processDirectory\<close> over the working directory, followed by
  \<open>Done\<close> when the scan is fulfilled. A run given a base name that is not empty prints
  the manual-mode line and is \<^verbatim>\<open>processSingleFile\<close> on that base name.
\<close>

theorem C10_empty_basename_runs_automatic:
  assumes "ensureFfmpegIsAvailable env w = (True, tr0, w0)"
  shows
   "main env (av\<lparr>argv_basename := Some []\<rparr>) w = main env (av\<lparr>argv_basename := None\<rparr>) w \<and>
    main env (av\<lparr>argv_basename := Some []\<rparr>) w =
      (case processDirectory env (argv_lang av) (processCwd env) w0 of
         (Inl e, tr, w') \<Rightarrow> (Rejected e, tr0 @ Log (AutomaticMode (processCwd env)) # tr, w')
       | (Inr u, tr, w') \<Rightarrow>
           (Fulfilled, tr0 @ Log (AutomaticMode (processCwd env)) # tr @ [Log Done], w')) \<and>
    (b \<noteq> [] \<longrightarrow>
       main env (av\<lparr>argv_basename := Some b\<rparr>) w =
         (case processSingleFile env b (argv_lang av) (processCwd env) w0 of
            (Inl e, tr, w') \<Rightarrow> (Rejected e, tr0 @ Log (ManualMode b) # tr, w')
          | (Inr u, tr, w') \<Rightarrow> (Fulfilled, tr0 @ Log (ManualMode b) # tr @ [Log Done], w')))"
proof -
  have same: "main env (av\<lparr>argv_basename := Some []\<rparr>) w =
      main env (av\<lparr>argv_basename := None\<rparr>) w"
    by (simp add: main_def Let_def split: prod.splits)
  have auto_mode: "main env (av\<lparr>argv_basename := Some []\<rparr>) w =
      (case processDirectory env (argv_lang av) (processCwd env) w0 of
         (Inl e, tr, w') \<Rightarrow> (Rejected e, tr0 @ Log (AutomaticMode (processCwd env)) # tr, w')
       | (Inr u, tr, w') \<Rightarrow>
           (Fulfilled, tr0 @ Log (AutomaticMode (processCwd env)) # tr @ [Log Done], w'))"
  proof -
    let ?av = "av\<lparr>argv_basename := Some []\<rparr>"
    have nt: "\<not> truthy (argv_basename ?av)" by simp
    obtain r tr w1 where
      p: "processDirectory env (argv_lang ?av) (processCwd env) w0 = (r, tr, w1)"
      by (cases "processDirectory env (argv_lang ?av) (processCwd env) w0")
    from main_automatic [OF assms nt p] p show ?thesis by (cases r) simp_all
  qed
  have manual_mode: "main env (av\<lparr>argv_basename := Some b\<rparr>) w =
         (case processSingleFile env b (argv_lang av) (processCwd env) w0 of
            (Inl e, tr, w') \<Rightarrow> (Rejected e, tr0 @ Log (ManualMode b) # tr, w')
          | (Inr u, tr, w') \<Rightarrow> (Fulfilled, tr0 @ Log (ManualMode b) # tr @ [Log Done], w'))"
    if "b \<noteq> []"
  proof -
    let ?av = "av\<lparr>argv_basename := Some b\<rparr>"
    have sb: "argv_basename ?av = Some b" by simp
    obtain r tr w1 where
      p: "processSingleFile env b (argv_lang ?av) (processCwd env) w0 = (r, tr, w1)"
      by (cases "processSingleFile env b (argv_lang ?av) (processCwd env) w0")
    from main_manual [OF assms sb that p] p show ?thesis by (cases r) simp_all
  qed
  from same auto_mode manual_mode show ?thesis by blast
qed

theorem C10_empty_basename_runs_automatic_witness:
  "ensureFfmpegIsAvailable albumEnv () = (True, [], ()) \<and>
   main albumEnv emptyArgv () = main albumEnv autoArgv () \<and>
   main albumEnv emptyArgv () =
     (Fulfilled,
      [Log (AutomaticMode ''/music''), Log (Processing ''/music/a.flac''),
       Spawn ''/bin/ffmpeg'' albumArgs, Log (Created ''/music/a.m4a''),
       Log (Skipping ''b''), Log Done], ()) \<and>
   main albumEnv manualArgv () =
     (Fulfilled,
      [Log (ManualMode ''a''), Log (Processing ''/music/a.flac''),
       Spawn ''/bin/ffmpeg'' albumArgs, Log (Created ''/music/a.m4a''), Log Done], ())"
proof -
  have e: "ensureFfmpegIsAvailable albumEnv () = (True, [], ())"
    by (simp add: albumEnv_def run_defs)
  have c: "processCwd albumEnv = ''/music''" "argv_lang emptyArgv = ''eng''"
    by (simp_all add: albumEnv_def tableEnv_def emptyArgv_def)
  have a: "emptyArgv\<lparr>argv_basename := Some []\<rparr> = emptyArgv"
    "emptyArgv\<lparr>argv_basename := None\<rparr> = autoArgv"
    "emptyArgv\<lparr>argv_basename := Some ''a''\<rparr> = manualArgv"
    by (simp_all add: emptyArgv_def autoArgv_def manualArgv_def)
  have d: "processDirectory albumEnv ''eng'' ''/music'' () =
      (Inr (),
       [Log (Processing ''/music/a.flac''), Spawn ''/bin/ffmpeg'' albumArgs,
        Log (Created ''/music/a.m4a''), Log (Skipping ''b'')], ())"
    by (simp add: albumEnv_def albumArgs_def run_defs)
  have s: "processSingleFile albumEnv ''a'' ''eng'' ''/music'' () =
      (Inr (),
       [Log (Processing ''/music/a.flac''), Spawn ''/bin/ffmpeg'' albumArgs,
        Log (Created ''/music/a.m4a'')], ())"
    by (simp add: albumEnv_def albumArgs_def run_defs)
  note t = C10_empty_basename_runs_automatic [OF e, of emptyArgv "''a''", unfolded a c d s]
  from t have "main albumEnv emptyArgv () = main albumEnv autoArgv ()" by (rule conjunct1)
  moreover have "main albumEnv emptyArgv () =
     (Fulfilled,
      [Log (AutomaticMode ''/music''), Log (Processing ''/music/a.flac''),
       Spawn ''/bin/ffmpeg'' albumArgs, Log (Created ''/music/a.m4a''),
       Log (Skipping ''b''), Log Done], ())"
    by (simp add: t [THEN conjunct2, THEN conjunct1])
  moreover from t [THEN conjunct2, THEN conjunct2] have "main albumEnv manualArgv () =
     (Fulfilled,
      [Log (ManualMode ''a''), Log (Processing ''/music/a.flac''),
       Spawn ''/bin/ffmpeg'' albumArgs, Log (Created ''/music/a.m4a''), Log Done], ())"
    by simp
  ultimately show ?thesis using e by blast
qed

end
